theory Spec2Isabelle
  imports Main
begin

section \<open>Edge deletion in the storage engine: data model\<close>

text \<open>
  The development embeds \<^verbatim>\<open>src/storage/mutate/DeleteEdgesProcessor.cpp\<close>:
  the request handler \<^verbatim>\<open>DeleteEdgesProcessor::process\<close> and the per-partition batch
  builder \<^verbatim>\<open>DeleteEdgesProcessor::deleteEdges\<close>.
\<close>

type_synonym GraphSpaceID = int
type_synonym PartitionID = int
type_synonym EdgeType = int
type_synonym EdgeRanking = int
type_synonym IndexID = int
type_synonym VertexID = string

text \<open>
  The result codes of \<^verbatim>\<open>nebula::cpp2::ErrorCode\<close> that the processor names, and
  \<open>E_STORE n\<close> for every other code the key-value store may report.
\<close>

datatype ErrorCode =
    SUCCEEDED
  | E_INVALID_SPACEVIDLEN
  | E_SPACE_NOT_FOUND
  | E_INVALID_VID
  | E_INVALID_DATA
  | E_DATA_CONFLICT_ERROR
  | E_STORE nat

text \<open>\<^verbatim>\<open>cpp2::EdgeKey\<close>: the identity of one edge inside a partition.\<close>

record EdgeKey =
  src :: VertexID
  edge_type :: EdgeType
  ranking :: EdgeRanking
  dst :: VertexID

text \<open>
  \<^verbatim>\<open>cpp2::IndexItem\<close>, with the accessors the processor reads:
  \<^verbatim>\<open>get_index_id()\<close>, \<^verbatim>\<open>get_schema_id().get_edge_type()\<close>,
  \<^verbatim>\<open>get_fields()\<close> and \<^verbatim>\<open>get_index_name()\<close>.
\<close>

record IndexItem =
  index_id :: IndexID
  schema_edge_type :: EdgeType
  index_fields :: "string list"
  index_name :: string

text \<open>
  Modelled from the spec: the type \<^verbatim>\<open>IndexState\<close> of the storage environment is not
  part of the source file. The spec gives an index lifecycle state one of three values,
  Normal, Rebuilding or Locked; \<open>checkRebuilding\<close> and \<open>checkIndexLocked\<close> are the two
  tests the processor applies to it.
\<close>

datatype IndexLifecycleState = Normal | Rebuilding | Locked

definition checkRebuilding :: "IndexLifecycleState \<Rightarrow> bool" where
  "checkRebuilding indexState = (indexState = Rebuilding)"

definition checkIndexLocked :: "IndexLifecycleState \<Rightarrow> bool" where
  "checkIndexLocked indexState = (indexState = Locked)"

text \<open>
  \<^verbatim>\<open>kvstore::BatchHolder\<close>: an ordered, append-only sequence of operations. The
  processor uses \<^verbatim>\<open>put\<close> and \<^verbatim>\<open>remove\<close>; each appends at the end.
\<close>

datatype BatchOp = BatchPut string string | BatchRemove string

text \<open>
  Everything the processor calls but does not define is a field of the environment:
  the schema and index managers, the key-value store's prefix scan, the index state
  query, the row decoder, and the static key codecs \<^verbatim>\<open>NebulaKeyUtils\<close>,
  \<^verbatim>\<open>IndexKeyUtils\<close>, \<^verbatim>\<open>OperationKeyUtils\<close> and \<^verbatim>\<open>encodeBatchValue\<close>.
  The type \<open>'r\<close> is the decoded row (\<^verbatim>\<open>RowReaderWrapper\<close>, where \<open>None\<close> is
  \<^verbatim>\<open>nullptr\<close>), \<open>'v\<close> the collected index values (\<open>None\<close> is a failed
  \<^verbatim>\<open>StatusOr\<close>). A prefix scan returns its result code and the key-value pairs
  the iterator walks, in key order. The signature of \<open>getIndexState\<close> is the one the
  processor calls: a space and a partition.
\<close>

record ('r, 'v) StorageEnv =
  getSpaceVidLen :: "GraphSpaceID \<Rightarrow> nat option"
  getEdgeIndexes :: "GraphSpaceID \<Rightarrow> IndexItem list option"
  kv_prefix :: "GraphSpaceID \<Rightarrow> PartitionID \<Rightarrow> string \<Rightarrow> ErrorCode \<times> (string \<times> string) list"
  getIndexState :: "GraphSpaceID \<Rightarrow> PartitionID \<Rightarrow> IndexLifecycleState"
  getEdgePropReader :: "GraphSpaceID \<Rightarrow> EdgeType \<Rightarrow> string \<Rightarrow> 'r option"
  collectIndexValues :: "'r \<Rightarrow> string list \<Rightarrow> 'v option"
  isValidVidLen :: "nat \<Rightarrow> VertexID \<Rightarrow> VertexID \<Rightarrow> bool"
  edgeKey :: "nat \<Rightarrow> PartitionID \<Rightarrow> VertexID \<Rightarrow> EdgeType \<Rightarrow> EdgeRanking \<Rightarrow> VertexID \<Rightarrow> string"
  edgePrefix :: "nat \<Rightarrow> PartitionID \<Rightarrow> VertexID \<Rightarrow> EdgeType \<Rightarrow> EdgeRanking \<Rightarrow> VertexID \<Rightarrow> string"
  isLock :: "nat \<Rightarrow> string \<Rightarrow> bool"
  isEdge :: "nat \<Rightarrow> string \<Rightarrow> bool"
  edgeIndexKey :: "nat \<Rightarrow> PartitionID \<Rightarrow> IndexID \<Rightarrow> VertexID \<Rightarrow> EdgeRanking \<Rightarrow> VertexID \<Rightarrow> 'v \<Rightarrow> string"
  deleteOperationKey :: "PartitionID \<Rightarrow> string"
  encodeBatchValue :: "BatchOp list \<Rightarrow> string"

section \<open>The batch builder: \<^verbatim>\<open>deleteEdges\<close>\<close>

text \<open>
  The iterator of a prefix scan is the list of pairs it has not yet passed:
  \<^verbatim>\<open>valid()\<close> is non-emptiness, \<^verbatim>\<open>key()\<close> and \<^verbatim>\<open>val()\<close> read the head,
  \<^verbatim>\<open>next()\<close> drops it.

  Lines 145-148: while the current key is a lock, remove it and advance.
\<close>

fun removeLocks ::
  "('r, 'v) StorageEnv \<Rightarrow> nat \<Rightarrow> (string \<times> string) list \<Rightarrow> BatchOp list
    \<Rightarrow> (string \<times> string) list \<times> BatchOp list" where
  "removeLocks env vidLen [] batch = ([], batch)"
| "removeLocks env vidLen ((k, v) # iter) batch =
     (if isLock env vidLen k then removeLocks env vidLen iter (batch @ [BatchRemove k])
      else ((k, v) # iter, batch))"

text \<open>Lines 198-201: remove every key the iterator still holds.\<close>

fun removeRest :: "(string \<times> string) list \<Rightarrow> BatchOp list \<Rightarrow> BatchOp list" where
  "removeRest [] batch = batch"
| "removeRest ((k, v) # iter) batch = removeRest iter (batch @ [BatchRemove k])"

text \<open>
  Lines 155-192: the loop over \<^verbatim>\<open>indexes_\<close> for one edge record. The reader is
  decoded at the first index of the edge's type and kept; a record that does not decode
  ends the whole construction with \<open>E_INVALID_DATA\<close>. An index whose values cannot be
  collected is passed over (\<^verbatim>\<open>continue\<close>). The state is queried with the space and
  the partition, and tested for rebuilding first, for locked second.
\<close>

fun indexLoop ::
  "('r, 'v) StorageEnv \<Rightarrow> GraphSpaceID \<Rightarrow> nat \<Rightarrow> PartitionID \<Rightarrow> EdgeKey \<Rightarrow> string
    \<Rightarrow> IndexItem list \<Rightarrow> 'r option \<Rightarrow> BatchOp list \<Rightarrow> ErrorCode + BatchOp list" where
  "indexLoop env spaceId vidLen partId edge val [] reader batch = Inr batch"
| "indexLoop env spaceId vidLen partId edge val (index # rest) reader batch =
     (if edge_type edge = schema_edge_type index then
        (case (case reader of
                 None \<Rightarrow> getEdgePropReader env spaceId (edge_type edge) val
               | Some r \<Rightarrow> Some r) of
           None \<Rightarrow> Inl E_INVALID_DATA
         | Some r \<Rightarrow>
             (case collectIndexValues env r (index_fields index) of
                None \<Rightarrow> indexLoop env spaceId vidLen partId edge val rest (Some r) batch
              | Some values \<Rightarrow>
                  (let indexKey = edgeIndexKey env vidLen partId (index_id index)
                                    (src edge) (ranking edge) (dst edge) values;
                       indexState = getIndexState env spaceId partId
                   in if checkRebuilding indexState then
                        indexLoop env spaceId vidLen partId edge val rest (Some r)
                          (batch @ [BatchPut (deleteOperationKey env partId) indexKey])
                      else if checkIndexLocked indexState then Inl E_DATA_CONFLICT_ERROR
                      else indexLoop env spaceId vidLen partId edge val rest (Some r)
                          (batch @ [BatchRemove indexKey]))))
      else indexLoop env spaceId vidLen partId edge val rest reader batch)"

text \<open>
  Lines 132-201: the body of the loop over the edges, for one edge. \<open>spaceId\<close>,
  \<open>vidLen\<close> and \<open>indexes\<close> are the members \<^verbatim>\<open>spaceId_\<close>, \<^verbatim>\<open>spaceVidLen_\<close>
  and \<^verbatim>\<open>indexes_\<close> that \<^verbatim>\<open>process\<close> has set.
\<close>

definition deleteEdge ::
  "('r, 'v) StorageEnv \<Rightarrow> GraphSpaceID \<Rightarrow> nat \<Rightarrow> IndexItem list \<Rightarrow> PartitionID \<Rightarrow> EdgeKey
    \<Rightarrow> BatchOp list \<Rightarrow> ErrorCode + BatchOp list" where
  "deleteEdge env spaceId vidLen indexes partId edge batch =
     (let prefix = edgePrefix env vidLen partId (src edge) (edge_type edge) (ranking edge) (dst edge);
          (ret, iter) = kv_prefix env spaceId partId prefix
      in if ret \<noteq> SUCCEEDED then Inl ret
         else
           (let (iter1, batch1) = removeLocks env vidLen iter batch
            in case iter1 of
                 [] \<Rightarrow> Inr (removeRest iter1 batch1)
               | (k, v) # iter2 \<Rightarrow>
                   if isEdge env vidLen k then
                     (case indexLoop env spaceId vidLen partId edge v indexes None batch1 of
                        Inl err \<Rightarrow> Inl err
                      | Inr batch2 \<Rightarrow> Inr (removeRest iter2 (batch2 @ [BatchRemove k])))
                   else Inr (removeRest iter1 batch1)))"

text \<open>Lines 131-202: the loop over the edges; the first failing edge ends it.\<close>

fun deleteEdgesLoop ::
  "('r, 'v) StorageEnv \<Rightarrow> GraphSpaceID \<Rightarrow> nat \<Rightarrow> IndexItem list \<Rightarrow> PartitionID \<Rightarrow> EdgeKey list
    \<Rightarrow> BatchOp list \<Rightarrow> ErrorCode + BatchOp list" where
  "deleteEdgesLoop env spaceId vidLen indexes partId [] batch = Inr batch"
| "deleteEdgesLoop env spaceId vidLen indexes partId (edge # edges) batch =
     (case deleteEdge env spaceId vidLen indexes partId edge batch of
        Inl err \<Rightarrow> Inl err
      | Inr batch' \<Rightarrow> deleteEdgesLoop env spaceId vidLen indexes partId edges batch')"

text \<open>Lines 128-205: the batch of a partition, encoded, or the error that ended it.\<close>

definition deleteEdges ::
  "('r, 'v) StorageEnv \<Rightarrow> GraphSpaceID \<Rightarrow> nat \<Rightarrow> IndexItem list \<Rightarrow> PartitionID \<Rightarrow> EdgeKey list
    \<Rightarrow> ErrorCode + string" where
  "deleteEdges env spaceId vidLen indexes partId edges =
     (case deleteEdgesLoop env spaceId vidLen indexes partId edges [] of
        Inl err \<Rightarrow> Inl err
      | Inr batch \<Rightarrow> Inr (encodeBatchValue env batch))"

section \<open>The request handler: \<^verbatim>\<open>process\<close>\<close>

text \<open>\<^verbatim>\<open>cpp2::DeleteEdgesRequest\<close>: a space and, for each partition, its edges. The
  partitions are listed in the order the handler iterates over them.\<close>

record DeleteEdgesRequest =
  space_id :: GraphSpaceID
  parts :: "(PartitionID \<times> EdgeKey list) list"

text \<open>The key of the in-memory edge lock (\<^verbatim>\<open>EMLI\<close>): space, partition, source, edge
  type, rank, destination.\<close>

type_synonym EMLI = "GraphSpaceID \<times> PartitionID \<times> VertexID \<times> EdgeType \<times> EdgeRanking \<times> VertexID"

text \<open>
  What the handler hands to the key-value store, with the callback still to come:
  \<open>AppendBatch\<close> is \<^verbatim>\<open>asyncAppendBatch\<close> with the encoded batch and the lock guard its
  callback owns, \<open>MultiRemove\<close> is the remove-only submission of \<^verbatim>\<open>doRemove\<close>.
\<close>

datatype Submission =
    AppendBatch PartitionID string "EMLI list"
  | MultiRemove PartitionID "string list"

fun subPart :: "Submission \<Rightarrow> PartitionID" where
  "subPart (AppendBatch partId batch locks) = partId"
| "subPart (MultiRemove partId keys) = partId"

text \<open>
  The state the handler changes: the result codes reported so far (\<^verbatim>\<open>codes_\<close>), the
  member \<^verbatim>\<open>callingNum_\<close>, how often \<^verbatim>\<open>onFinished\<close> has run, the registry of held
  edge locks (\<^verbatim>\<open>env_->edgesML_\<close>), and the submissions whose callbacks are outstanding.
\<close>

record ProcessorState =
  codes :: "(PartitionID \<times> ErrorCode) list"
  callingNum :: nat
  finished :: nat
  edgesML :: "EMLI list"
  pending :: "Submission list"

definition initState :: "EMLI list \<Rightarrow> ProcessorState" where
  "initState held = \<lparr>codes = [], callingNum = 0, finished = 0, edgesML = held, pending = []\<rparr>"

text \<open>
  Modelled from the spec: \<^verbatim>\<open>pushResultCode\<close>, \<^verbatim>\<open>onFinished\<close>, \<^verbatim>\<open>handleAsync\<close>
  and \<^verbatim>\<open>doRemove\<close> belong to the processor's base class, which is not part of the
  source file. By the spec every outcome of a partition is reported as one result code,
  the handler is finished when the count of reported outcomes equals the count of
  partitions of the request (which line 33 stores in \<^verbatim>\<open>callingNum_\<close>), and the fast
  path submits a remove-only batch and takes no lock.
\<close>

definition pushResultCode :: "ErrorCode \<Rightarrow> PartitionID \<Rightarrow> ProcessorState \<Rightarrow> ProcessorState" where
  "pushResultCode code partId s = s\<lparr>codes := codes s @ [(partId, code)]\<rparr>"

definition onFinished :: "ProcessorState \<Rightarrow> ProcessorState" where
  "onFinished s = s\<lparr>finished := Suc (finished s)\<rparr>"

definition handleAsync :: "PartitionID \<Rightarrow> ErrorCode \<Rightarrow> ProcessorState \<Rightarrow> ProcessorState" where
  "handleAsync partId code s =
     (let s' = pushResultCode code partId s
      in if length (codes s') = callingNum s' then onFinished s' else s')"

definition doRemove :: "PartitionID \<Rightarrow> string list \<Rightarrow> ProcessorState \<Rightarrow> ProcessorState" where
  "doRemove partId keys s = s\<lparr>pending := pending s @ [MultiRemove partId keys]\<rparr>"

text \<open>
  Modelled from the spec: \<^verbatim>\<open>MemoryLockGuard\<close> is not part of the source file. By the
  spec the identities are claimed all or nothing: when one of them is already held the
  acquisition fails with the first such identity and holds nothing, otherwise all of
  them are held until the guard is released.
\<close>

definition tryAcquireAll :: "EMLI list \<Rightarrow> EMLI list \<Rightarrow> EMLI + EMLI list" where
  "tryAcquireAll held keys =
     (case find (\<lambda>k. k \<in> set held) keys of
        Some k \<Rightarrow> Inl k
      | None \<Rightarrow> Inr (held @ remdups keys))"

definition releaseAll :: "EMLI list \<Rightarrow> EMLI list \<Rightarrow> EMLI list" where
  "releaseAll held keys = filter (\<lambda>k. k \<notin> set keys) held"

text \<open>Lines 55-75: the keys of a partition on the fast path; the loop breaks at the
  first edge whose vertex ids do not have the space's length.\<close>

fun collectKeys ::
  "('r, 'v) StorageEnv \<Rightarrow> nat \<Rightarrow> PartitionID \<Rightarrow> EdgeKey list \<Rightarrow> string list
    \<Rightarrow> ErrorCode \<times> string list" where
  "collectKeys env vidLen partId [] keys = (SUCCEEDED, keys)"
| "collectKeys env vidLen partId (edge # edges) keys =
     (if \<not> isValidVidLen env vidLen (src edge) (dst edge) then (E_INVALID_VID, keys)
      else collectKeys env vidLen partId edges
             (keys @ [edgeKey env vidLen partId (src edge) (edge_type edge) (ranking edge) (dst edge)]))"

text \<open>Lines 50-81: one partition on the fast path.\<close>

definition processPartNoIndex ::
  "('r, 'v) StorageEnv \<Rightarrow> nat \<Rightarrow> PartitionID \<times> EdgeKey list \<Rightarrow> ProcessorState \<Rightarrow> ProcessorState" where
  "processPartNoIndex env vidLen part s =
     (let partId = fst part;
          (code, keys) = collectKeys env vidLen partId (snd part) []
      in if code \<noteq> SUCCEEDED then handleAsync partId code s
         else doRemove partId keys s)"

text \<open>
  Lines 83-123: one partition on the index-aware path. The batch is built first; a
  failed build is reported and nothing else happens. Then the locks of all edges of the
  partition are claimed; a conflict is reported as \<open>E_DATA_CONFLICT_ERROR\<close>. Otherwise
  the batch is submitted, and the callback owns the guard. The debug assertion of line
  102 and the \<^verbatim>\<open>IndexCountWrapper\<close>, a counter of running operations, change
  no result and are left out.
\<close>

definition processPartIndexed ::
  "('r, 'v) StorageEnv \<Rightarrow> GraphSpaceID \<Rightarrow> nat \<Rightarrow> IndexItem list \<Rightarrow> PartitionID \<times> EdgeKey list
    \<Rightarrow> ProcessorState \<Rightarrow> ProcessorState" where
  "processPartIndexed env spaceId vidLen indexes part s =
     (let partId = fst part;
          dummyLock = map (\<lambda>edge. (spaceId, partId, src edge, edge_type edge, ranking edge, dst edge))
                        (snd part)
      in case deleteEdges env spaceId vidLen indexes partId (snd part) of
           Inl err \<Rightarrow> handleAsync partId err s
         | Inr batch \<Rightarrow>
             (case tryAcquireAll (edgesML s) dummyLock of
                Inl conflict \<Rightarrow> handleAsync partId E_DATA_CONFLICT_ERROR s
              | Inr held \<Rightarrow>
                  s\<lparr>edgesML := held, pending := pending s @ [AppendBatch partId batch dummyLock]\<rparr>))"

text \<open>Lines 18-125: the handler.\<close>

definition process ::
  "('r, 'v) StorageEnv \<Rightarrow> DeleteEdgesRequest \<Rightarrow> ProcessorState \<Rightarrow> ProcessorState" where
  "process env req s =
     (let spaceId = space_id req; partEdges = parts req
      in case getSpaceVidLen env spaceId of
           None \<Rightarrow>
             onFinished (foldl (\<lambda>s' part. pushResultCode E_INVALID_SPACEVIDLEN (fst part) s') s partEdges)
         | Some vidLen \<Rightarrow>
             (let s1 = s\<lparr>callingNum := length partEdges\<rparr>
              in case getEdgeIndexes env spaceId of
                   None \<Rightarrow>
                     onFinished (foldl (\<lambda>s' part. pushResultCode E_SPACE_NOT_FOUND (fst part) s') s1 partEdges)
                 | Some indexes \<Rightarrow>
                     if indexes = [] then
                       foldl (\<lambda>s' part. processPartNoIndex env vidLen part s') s1 partEdges
                     else
                       foldl (\<lambda>s' part. processPartIndexed env spaceId vidLen indexes part s') s1 partEdges))"

text \<open>
  The callback of a submission, run by the store with its result code: it reports the
  code through \<^verbatim>\<open>handleAsync\<close>; the guard of an \<open>AppendBatch\<close> is released with the
  callback. \<open>fire i code\<close> is the store completing the \<open>i\<close>-th outstanding submission;
  \<open>delivers s s'\<close> holds when \<open>s'\<close> is reached from \<open>s\<close> by callbacks in any order
  with any result codes.
\<close>

fun complete :: "Submission \<Rightarrow> ErrorCode \<Rightarrow> ProcessorState \<Rightarrow> ProcessorState" where
  "complete (AppendBatch partId batch locks) code s =
     (let s' = handleAsync partId code s in s'\<lparr>edgesML := releaseAll (edgesML s') locks\<rparr>)"
| "complete (MultiRemove partId keys) code s = handleAsync partId code s"

definition fire :: "nat \<Rightarrow> ErrorCode \<Rightarrow> ProcessorState \<Rightarrow> ProcessorState" where
  "fire i code s =
     (if i < length (pending s) then
        complete (pending s ! i) code (s\<lparr>pending := take i (pending s) @ drop (Suc i) (pending s)\<rparr>)
      else s)"

inductive delivers :: "ProcessorState \<Rightarrow> ProcessorState \<Rightarrow> bool" where
  delivers_refl: "delivers s s"
| delivers_step: "delivers s s' \<Longrightarrow> i < length (pending s') \<Longrightarrow> delivers s (fire i code s')"

section \<open>Notions the properties are stated with\<close>

text \<open>
  The properties below describe a batch by what it should contain. \<open>isLockKV\<close> reads
  the lock test on a scanned pair, \<open>removeOps\<close> is one removal per scanned pair, in
  order. \<open>indexKeys\<close> are the index keys of an edge record: one for each index of the
  edge's type whose values can be collected from the decoded row, in the order of the
  indexes. \<open>branchOps\<close> is the treatment of a list of index keys under one lifecycle
  state: deferred-deletion entries when rebuilding, a conflict when locked and there is
  a key to treat, direct removals otherwise. \<open>indexOps\<close> are the operations the index
  loop emits for an edge record, \<open>scanned\<close> the pairs under an edge's prefix, and
  \<open>edgeOps\<close> the operations of one edge in the order the spec lists them: the
  leading locks, then for an edge record its index operations and its own removal, then
  everything that is left.
\<close>

definition isLockKV :: "('r, 'v) StorageEnv \<Rightarrow> nat \<Rightarrow> string \<times> string \<Rightarrow> bool" where
  "isLockKV env vidLen kv = isLock env vidLen (fst kv)"

definition removeOps :: "(string \<times> string) list \<Rightarrow> BatchOp list" where
  "removeOps kvs = map (\<lambda>kv. BatchRemove (fst kv)) kvs"

definition indexKeys ::
  "('r, 'v) StorageEnv \<Rightarrow> nat \<Rightarrow> PartitionID \<Rightarrow> EdgeKey \<Rightarrow> 'r \<Rightarrow> IndexItem list \<Rightarrow> string list" where
  "indexKeys env vidLen partId edge r indexes =
     concat (map (\<lambda>index.
       if edge_type edge = schema_edge_type index then
         (case collectIndexValues env r (index_fields index) of
            None \<Rightarrow> []
          | Some values \<Rightarrow> [edgeIndexKey env vidLen partId (index_id index)
                              (src edge) (ranking edge) (dst edge) values])
       else []) indexes)"

definition branchOps :: "IndexLifecycleState \<Rightarrow> string \<Rightarrow> string list \<Rightarrow> ErrorCode + BatchOp list" where
  "branchOps indexState opKey keys =
     (case indexState of
        Rebuilding \<Rightarrow> Inr (map (BatchPut opKey) keys)
      | Locked \<Rightarrow> if keys = [] then Inr [] else Inl E_DATA_CONFLICT_ERROR
      | Normal \<Rightarrow> Inr (map BatchRemove keys))"

definition indexOps ::
  "('r, 'v) StorageEnv \<Rightarrow> GraphSpaceID \<Rightarrow> nat \<Rightarrow> PartitionID \<Rightarrow> EdgeKey \<Rightarrow> string
    \<Rightarrow> IndexItem list \<Rightarrow> BatchOp list" where
  "indexOps env spaceId vidLen partId edge val indexes =
     (case indexLoop env spaceId vidLen partId edge val indexes None [] of
        Inl err \<Rightarrow> []
      | Inr ops \<Rightarrow> ops)"

definition scanned ::
  "('r, 'v) StorageEnv \<Rightarrow> GraphSpaceID \<Rightarrow> nat \<Rightarrow> PartitionID \<Rightarrow> EdgeKey \<Rightarrow> (string \<times> string) list" where
  "scanned env spaceId vidLen partId edge =
     snd (kv_prefix env spaceId partId
            (edgePrefix env vidLen partId (src edge) (edge_type edge) (ranking edge) (dst edge)))"

definition edgeOps ::
  "('r, 'v) StorageEnv \<Rightarrow> GraphSpaceID \<Rightarrow> nat \<Rightarrow> IndexItem list \<Rightarrow> PartitionID \<Rightarrow> EdgeKey
    \<Rightarrow> BatchOp list" where
  "edgeOps env spaceId vidLen indexes partId edge =
     (let iter = scanned env spaceId vidLen partId edge;
          locks = takeWhile (isLockKV env vidLen) iter;
          rest = dropWhile (isLockKV env vidLen) iter
      in removeOps locks @
         (case rest of
            [] \<Rightarrow> []
          | (k, v) # iter2 \<Rightarrow>
              if isEdge env vidLen k then
                indexOps env spaceId vidLen partId edge v indexes @ [BatchRemove k] @ removeOps iter2
              else removeOps rest))"

text \<open>
  The index loop as the spec words it: the lifecycle state is classified for each
  (space, partition, index) triple, and the branch of an index follows the state of
  that index. The row is already decoded. This definition is compared with the loop of
  the source; nothing of the embedding is built on it.
\<close>

fun specIndexLoop ::
  "('r, 'v) StorageEnv \<Rightarrow> (GraphSpaceID \<Rightarrow> PartitionID \<Rightarrow> IndexID \<Rightarrow> IndexLifecycleState)
    \<Rightarrow> GraphSpaceID \<Rightarrow> nat \<Rightarrow> PartitionID \<Rightarrow> EdgeKey \<Rightarrow> 'r \<Rightarrow> IndexItem list \<Rightarrow> BatchOp list
    \<Rightarrow> ErrorCode + BatchOp list" where
  "specIndexLoop env classify spaceId vidLen partId edge r [] batch = Inr batch"
| "specIndexLoop env classify spaceId vidLen partId edge r (index # rest) batch =
     (if edge_type edge = schema_edge_type index then
        (case collectIndexValues env r (index_fields index) of
           None \<Rightarrow> specIndexLoop env classify spaceId vidLen partId edge r rest batch
         | Some values \<Rightarrow>
             (let indexKey = edgeIndexKey env vidLen partId (index_id index)
                               (src edge) (ranking edge) (dst edge) values
              in case classify spaceId partId (index_id index) of
                   Locked \<Rightarrow> Inl E_DATA_CONFLICT_ERROR
                 | Rebuilding \<Rightarrow>
                     specIndexLoop env classify spaceId vidLen partId edge r rest
                       (batch @ [BatchPut (deleteOperationKey env partId) indexKey])
                 | Normal \<Rightarrow>
                     specIndexLoop env classify spaceId vidLen partId edge r rest
                       (batch @ [BatchRemove indexKey])))
      else specIndexLoop env classify spaceId vidLen partId edge r rest batch)"

text \<open>
  The result codes reported for a partition and the submissions outstanding for it.
\<close>

definition partCodes :: "PartitionID \<Rightarrow> ProcessorState \<Rightarrow> (PartitionID \<times> ErrorCode) list" where
  "partCodes partId s = filter (\<lambda>c. fst c = partId) (codes s)"

definition partPending :: "PartitionID \<Rightarrow> ProcessorState \<Rightarrow> Submission list" where
  "partPending partId s = filter (\<lambda>sub. subPart sub = partId) (pending s)"

text \<open>
  Modelled from the spec: the key-value store is not part of the source file. By the
  spec a batch is scoped to one space and partition and becomes one atomic write at the
  store boundary. \<open>commitAll\<close> gives the keyspaces after the store has applied a list
  of submissions; what a submission does to the keyspace of its partition is the
  parameter \<open>apply\<close>, and it touches the keyspace of its own partition only.
\<close>

definition commit ::
  "(Submission \<Rightarrow> 'ks \<Rightarrow> 'ks) \<Rightarrow> (PartitionID \<Rightarrow> 'ks) \<Rightarrow> Submission \<Rightarrow> (PartitionID \<Rightarrow> 'ks)" where
  "commit apply keyspace sub = keyspace (subPart sub := apply sub (keyspace (subPart sub)))"

definition commitAll ::
  "(Submission \<Rightarrow> 'ks \<Rightarrow> 'ks) \<Rightarrow> Submission list \<Rightarrow> (PartitionID \<Rightarrow> 'ks) \<Rightarrow> (PartitionID \<Rightarrow> 'ks)" where
  "commitAll apply subs keyspace = foldl (commit apply) keyspace subs"

section \<open>A small concrete environment\<close>

text \<open>
  An instance of the environment on which the properties are exercised. Vertex ids
  have length 1; a key is the two vertex ids followed by a version digit and a letter,
  \<open>L\<close> for a lock and \<open>E\<close> for an edge record. Partition 9 is one whose scan fails. A
  row with the value \<open>bad\<close> does not decode, and an index without fields has no values
  to collect. The validity test is the spec's: both vertex ids have the space's length.
\<close>

definition demoStore :: "(string \<times> string) list" where
  "demoStore = [(''ab1L'', ''''), (''ab2E'', ''row''), (''ab3X'', ''old''), (''cd2E'', ''bad'')]"

definition demoEnv :: "IndexLifecycleState \<Rightarrow> IndexItem list option \<Rightarrow> (string, string) StorageEnv" where
  "demoEnv indexState indexes =
     \<lparr> getSpaceVidLen = (\<lambda>spaceId. if spaceId = 1 then Some 1 else None),
       getEdgeIndexes = (\<lambda>spaceId. indexes),
       kv_prefix = (\<lambda>spaceId partId prefix.
          if partId = 9 then (E_STORE 5, [])
          else (SUCCEEDED, filter (\<lambda>kv. take (length prefix) (fst kv) = prefix) demoStore)),
       getIndexState = (\<lambda>spaceId partId. indexState),
       getEdgePropReader = (\<lambda>spaceId type val. if val = ''bad'' then None else Some val),
       collectIndexValues = (\<lambda>r fieldNames. if fieldNames = [] then None else Some r),
       isValidVidLen = (\<lambda>vidLen srcId dstId. length srcId = vidLen \<and> length dstId = vidLen),
       edgeKey = (\<lambda>vidLen partId srcId type rank dstId. srcId @ dstId @ ''2E''),
       edgePrefix = (\<lambda>vidLen partId srcId type rank dstId. srcId @ dstId),
       isLock = (\<lambda>vidLen k. k \<noteq> [] \<and> last k = CHR ''L''),
       isEdge = (\<lambda>vidLen k. k \<noteq> [] \<and> last k = CHR ''E''),
       edgeIndexKey = (\<lambda>vidLen partId indexId srcId rank dstId values.
          (if indexId = 1 then ''i1'' else if indexId = 2 then ''i2'' else ''iN'') @ srcId @ dstId),
       deleteOperationKey = (\<lambda>partId. ''op''),
       encodeBatchValue = (\<lambda>ops. concat (map (\<lambda>op. case op of
            BatchPut k v \<Rightarrow> ''P'' @ k @ ''='' @ v @ '';''
          | BatchRemove k \<Rightarrow> ''R'' @ k @ '';'') ops)) \<rparr>"

definition demoEdge :: "VertexID \<Rightarrow> VertexID \<Rightarrow> EdgeKey" where
  "demoEdge srcId dstId = \<lparr>src = srcId, edge_type = 1, ranking = 0, dst = dstId\<rparr>"

definition demoIndex :: "IndexID \<Rightarrow> string list \<Rightarrow> IndexItem" where
  "demoIndex indexId fieldNames =
     \<lparr>index_id = indexId, schema_edge_type = 1, index_fields = fieldNames, index_name = ''idx''\<rparr>"

definition demoIndexes :: "IndexItem list" where
  "demoIndexes = [demoIndex 1 [''f''], demoIndex 2 [], demoIndex 3 [''g'']]"

text \<open>A classification by index: index 1 is Normal, every other index is being rebuilt.\<close>

definition demoClassify :: "GraphSpaceID \<Rightarrow> PartitionID \<Rightarrow> IndexID \<Rightarrow> IndexLifecycleState" where
  "demoClassify spaceId partId indexId = (if indexId = 1 then Normal else Rebuilding)"

text \<open>A request over three partitions: one edge with a record, one with a row that
  does not decode and an edge whose destination is too long, and one with no key in the
  store.\<close>

definition demoRequest :: "GraphSpaceID \<Rightarrow> DeleteEdgesRequest" where
  "demoRequest spaceId =
     \<lparr>space_id = spaceId,
      parts = [(3, [demoEdge ''a'' ''b'']), (4, [demoEdge ''c'' ''d'', demoEdge ''a'' ''bb'']),
               (5, [demoEdge ''x'' ''y''])]\<rparr>"

section \<open>Notions for the loop over the partitions\<close>

text \<open>\<open>stepOf f\<close>: a step of the loop over the partitions either reports a code for its
  partition or hands one submission for it to the store.\<close>

definition stepOf :: "(ProcessorState \<Rightarrow> PartitionID \<times> EdgeKey list \<Rightarrow> ProcessorState) \<Rightarrow> bool" where
  "stepOf f = (\<forall>s part.
     (\<exists>code. f s part = handleAsync (fst part) code s) \<or>
     (\<exists>sub held. subPart sub = fst part \<and> f s part = s\<lparr>edgesML := held, pending := pending s @ [sub]\<rparr>))"

text \<open>
  \<open>accounted n handled s\<close>: of the \<open>n\<close> partitions of a request, those in \<open>handled\<close>
  have each been given either a reported code or an outstanding submission, one for
  every time the partition is listed, and the handler has finished exactly when the
  number of reported codes is \<open>n\<close>.
\<close>

definition accounted :: "nat \<Rightarrow> (PartitionID \<times> EdgeKey list) list \<Rightarrow> ProcessorState \<Rightarrow> bool" where
  "accounted n handled s =
     (callingNum s = n \<and>
      length (codes s) + length (pending s) = length handled \<and>
      (\<forall>p. length (partCodes p s) + length (partPending p s) = count_list (map fst handled) p) \<and>
      finished s = (if length (codes s) = n then 1 else 0))"

section \<open>Properties of the batch builder\<close>

subsection \<open>The loops as list functions\<close>

lemma removeLocks_eq:
  "removeLocks env vidLen iter batch =
     (dropWhile (isLockKV env vidLen) iter, batch @ removeOps (takeWhile (isLockKV env vidLen) iter))"
  by (induction env vidLen iter batch rule: removeLocks.induct)
     (simp_all add: isLockKV_def removeOps_def)

lemma removeRest_eq: "removeRest iter batch = batch @ removeOps iter"
  by (induction iter batch rule: removeRest.induct) (simp_all add: removeOps_def)

lemma indexKeys_Nil: "indexKeys env vidLen partId edge r [] = []"
  by (simp add: indexKeys_def)

lemma indexKeys_Cons:
  "indexKeys env vidLen partId edge r (index # rest) =
     (if edge_type edge = schema_edge_type index then
         (case collectIndexValues env r (index_fields index) of
            None \<Rightarrow> []
          | Some values \<Rightarrow> [edgeIndexKey env vidLen partId (index_id index)
                              (src edge) (ranking edge) (dst edge) values])
       else []) @ indexKeys env vidLen partId edge r rest"
  by (simp add: indexKeys_def)

lemma indexKeys_append:
  "indexKeys env vidLen partId edge r (xs @ ys) =
     indexKeys env vidLen partId edge r xs @ indexKeys env vidLen partId edge r ys"
  by (simp add: indexKeys_def)

lemma indexKeys_member:
  assumes "index \<in> set indexes"
    and "edge_type edge = schema_edge_type index"
    and "collectIndexValues env r (index_fields index) = Some values"
  shows "edgeIndexKey env vidLen partId (index_id index) (src edge) (ranking edge) (dst edge) values
           \<in> set (indexKeys env vidLen partId edge r indexes)"
  using assms unfolding indexKeys_def by force

lemma indexKeys_other_type:
  "\<forall>index\<in>set indexes. edge_type edge \<noteq> schema_edge_type index \<Longrightarrow>
     indexKeys env vidLen partId edge r indexes = []"
  by (induction indexes) (simp_all add: indexKeys_Nil indexKeys_Cons)

lemma branchOps_Nil: "branchOps indexState opKey [] = Inr []"
  by (cases indexState) (simp_all add: branchOps_def)

lemma indexLoop_reader:
  "indexLoop env spaceId vidLen partId edge val indexes (Some r) batch =
     (case branchOps (getIndexState env spaceId partId) (deleteOperationKey env partId)
             (indexKeys env vidLen partId edge r indexes) of
        Inl err \<Rightarrow> Inl err
      | Inr ops \<Rightarrow> Inr (batch @ ops))"
proof (induction indexes arbitrary: batch)
  case Nil
  show ?case by (simp add: indexKeys_Nil branchOps_Nil)
next
  case (Cons index rest)
  show ?case
    by (cases "getIndexState env spaceId partId")
       (simp_all add: Cons.IH indexKeys_Cons branchOps_def checkRebuilding_def
          checkIndexLocked_def split: option.splits)
qed

lemma indexLoop_decoded:
  "getEdgePropReader env spaceId (edge_type edge) val = Some r \<Longrightarrow>
     indexLoop env spaceId vidLen partId edge val indexes None batch =
     indexLoop env spaceId vidLen partId edge val indexes (Some r) batch"
  by (induction indexes) auto

lemma indexLoop_undecoded:
  "getEdgePropReader env spaceId (edge_type edge) val = None \<Longrightarrow>
     indexLoop env spaceId vidLen partId edge val indexes None batch =
       (if \<forall>index\<in>set indexes. edge_type edge \<noteq> schema_edge_type index then Inr batch
        else Inl E_INVALID_DATA)"
  by (induction indexes) auto

lemma indexLoop_char:
  "indexLoop env spaceId vidLen partId edge val indexes None batch =
     (case getEdgePropReader env spaceId (edge_type edge) val of
        None \<Rightarrow>
          if \<forall>index\<in>set indexes. edge_type edge \<noteq> schema_edge_type index then Inr batch
          else Inl E_INVALID_DATA
      | Some r \<Rightarrow>
          (case branchOps (getIndexState env spaceId partId) (deleteOperationKey env partId)
                  (indexKeys env vidLen partId edge r indexes) of
             Inl err \<Rightarrow> Inl err
           | Inr ops \<Rightarrow> Inr (batch @ ops)))"
proof (cases "getEdgePropReader env spaceId (edge_type edge) val")
  case None
  then show ?thesis by (simp add: indexLoop_undecoded)
next
  case (Some r)
  then show ?thesis by (simp add: indexLoop_decoded indexLoop_reader)
qed

lemma indexLoop_batch:
  "indexLoop env spaceId vidLen partId edge val indexes None batch =
     (case indexLoop env spaceId vidLen partId edge val indexes None [] of
        Inl err \<Rightarrow> Inl err
      | Inr ops \<Rightarrow> Inr (batch @ ops))"
  by (simp add: indexLoop_char [of _ _ _ _ _ _ _ batch] indexLoop_char [of _ _ _ _ _ _ _ "[]"]
        split: option.splits sum.splits)

lemma deleteEdge_scan:
  assumes "kv_prefix env spaceId partId
       (edgePrefix env vidLen partId (src edge) (edge_type edge) (ranking edge) (dst edge)) = (ret, iter)"
  shows "deleteEdge env spaceId vidLen indexes partId edge batch =
     (if ret \<noteq> SUCCEEDED then Inl ret
      else case dropWhile (isLockKV env vidLen) iter of
             [] \<Rightarrow> Inr (batch @ removeOps (takeWhile (isLockKV env vidLen) iter))
           | (k, v) # iter2 \<Rightarrow>
               if isEdge env vidLen k then
                 (case indexLoop env spaceId vidLen partId edge v indexes None [] of
                    Inl err \<Rightarrow> Inl err
                  | Inr ops \<Rightarrow>
                      Inr (batch @ removeOps (takeWhile (isLockKV env vidLen) iter) @ ops
                             @ [BatchRemove k] @ removeOps iter2))
               else Inr (batch @ removeOps (takeWhile (isLockKV env vidLen) iter)
                           @ removeOps ((k, v) # iter2)))"
proof (cases "dropWhile (isLockKV env vidLen) iter")
  case Nil
  show ?thesis
    unfolding deleteEdge_def Let_def assms prod.case removeLocks_eq Nil list.case
    by simp
next
  case (Cons kv iter2)
  obtain k v where kv: "kv = (k, v)" by (cases kv)
  show ?thesis
    unfolding deleteEdge_def Let_def assms prod.case removeLocks_eq Cons kv list.case
    by (subst indexLoop_batch) (simp add: removeRest_eq removeOps_def split: sum.splits)
qed

lemma edgeOps_scan:
  "edgeOps env spaceId vidLen indexes partId edge =
     removeOps (takeWhile (isLockKV env vidLen) (scanned env spaceId vidLen partId edge)) @
       (case dropWhile (isLockKV env vidLen) (scanned env spaceId vidLen partId edge) of
          [] \<Rightarrow> []
        | (k, v) # iter2 \<Rightarrow>
            if isEdge env vidLen k then
              indexOps env spaceId vidLen partId edge v indexes @ [BatchRemove k] @ removeOps iter2
            else removeOps ((k, v) # iter2))"
  unfolding edgeOps_def Let_def by (simp split: list.splits del: dropWhile_eq_Nil_conv)

lemma deleteEdge_Inr:
  assumes "deleteEdge env spaceId vidLen indexes partId edge batch = Inr batch'"
  shows "batch' = batch @ edgeOps env spaceId vidLen indexes partId edge"
proof -
  obtain ret iter where scan:
    "kv_prefix env spaceId partId
       (edgePrefix env vidLen partId (src edge) (edge_type edge) (ranking edge) (dst edge)) = (ret, iter)"
    by (cases "kv_prefix env spaceId partId
       (edgePrefix env vidLen partId (src edge) (edge_type edge) (ranking edge) (dst edge))")
  have iter: "scanned env spaceId vidLen partId edge = iter"
    by (simp add: scanned_def scan)
  from assms show ?thesis
    unfolding deleteEdge_scan [OF scan] edgeOps_scan iter indexOps_def
    by (auto split: if_splits list.splits sum.splits simp del: dropWhile_eq_Nil_conv)
qed

lemma deleteEdgesLoop_Inr:
  "deleteEdgesLoop env spaceId vidLen indexes partId edges batch = Inr ops \<Longrightarrow>
     ops = batch @ concat (map (edgeOps env spaceId vidLen indexes partId) edges)"
proof (induction edges arbitrary: batch)
  case Nil
  then show ?case by simp
next
  case (Cons edge edges)
  from Cons.prems obtain batch' where
    one: "deleteEdge env spaceId vidLen indexes partId edge batch = Inr batch'"
    and rest: "deleteEdgesLoop env spaceId vidLen indexes partId edges batch' = Inr ops"
    by (auto split: sum.splits)
  from Cons.IH [OF rest] deleteEdge_Inr [OF one] show ?case by simp
qed

lemma branchOps_not_mixed:
  "branchOps indexState opKey keys = Inr ops \<Longrightarrow>
     BatchRemove k \<in> set ops \<Longrightarrow> BatchPut opKey' k' \<in> set ops \<Longrightarrow> False"
  by (cases indexState) (auto simp add: branchOps_def split: if_splits)

lemma indexOps_rebuilding:
  "getIndexState env spaceId partId = Rebuilding \<Longrightarrow>
     BatchRemove key \<notin> set (indexOps env spaceId vidLen partId edge val indexes)"
  by (auto simp add: indexOps_def indexLoop_char branchOps_def split: option.splits)

lemma removeOps_member:
  "BatchRemove key \<in> set (removeOps kvs) \<Longrightarrow> key \<in> fst ` set kvs"
  by (auto simp add: removeOps_def)

lemma edgeOps_removals:
  assumes "BatchRemove key \<in> set (edgeOps env spaceId vidLen indexes partId edge)"
  shows "key \<in> fst ` set (scanned env spaceId vidLen partId edge) \<or>
         (\<exists>val. BatchRemove key \<in> set (indexOps env spaceId vidLen partId edge val indexes))"
proof -
  let ?iter = "scanned env spaceId vidLen partId edge"
  let ?P = "isLockKV env vidLen"
  have sub: "set (takeWhile ?P ?iter) \<subseteq> set ?iter" "set (dropWhile ?P ?iter) \<subseteq> set ?iter"
    by (auto dest: set_takeWhileD set_dropWhileD)
  show ?thesis
  proof (cases "dropWhile ?P ?iter")
    case Nil
    with assms sub show ?thesis
      unfolding edgeOps_scan Nil list.case by (auto dest!: removeOps_member)
  next
    case (Cons kv iter2)
    obtain k v where kv: "kv = (k, v)" by (cases kv)
    from sub(2) Cons kv have in_iter: "(k, v) \<in> set ?iter" "set iter2 \<subseteq> set ?iter"
      by auto
    from assms in_iter sub(1) show ?thesis
      unfolding edgeOps_scan Cons kv list.case prod.case
      by (auto dest!: removeOps_member split: if_splits) force+
  qed
qed

lemmas demo_defs = demoEnv_def demoStore_def demoEdge_def demoIndex_def demoIndexes_def
  deleteEdges_def deleteEdge_def checkRebuilding_def checkIndexLocked_def isLockKV_def
  scanned_def edgeOps_def indexOps_def removeOps_def indexKeys_def branchOps_def Let_def

subsection \<open>Order of the operations of an edge\<close>

text \<open>
  Claim C3. For every edge the builder processes, the operations it appends to the
  partition's batch are, in this order: one removal for each leading key that is a lock;
  then, when the next key is an edge record, the operations of the indexes followed by
  the removal of the edge record's key; then one removal for every key that is left
  under the prefix. The encoded batch of a partition is the encoding of these
  operations, edge after edge.
\<close>

theorem deleteEdges_operation_order:
  assumes "deleteEdges env spaceId vidLen indexes partId edges = Inr payload"
  shows "payload =
     encodeBatchValue env (concat (map (edgeOps env spaceId vidLen indexes partId) edges))"
proof -
  from assms obtain ops where
    ops: "deleteEdgesLoop env spaceId vidLen indexes partId edges [] = Inr ops"
    and payload: "payload = encodeBatchValue env ops"
    by (auto simp add: deleteEdges_def split: sum.splits)
  from deleteEdgesLoop_Inr [OF ops] payload show ?thesis by simp
qed

text \<open>The order on the concrete store: a lock, the two index keys, the record, an old version.\<close>

theorem deleteEdges_operation_order_witness:
  "deleteEdges (demoEnv Normal None) 1 1 demoIndexes 3 [demoEdge ''a'' ''b'']
     = Inr ''Rab1L;Ri1ab;RiNab;Rab2E;Rab3X;'' \<and>
   ''Rab1L;Ri1ab;RiNab;Rab2E;Rab3X;'' =
     encodeBatchValue (demoEnv Normal None)
       (concat (map (edgeOps (demoEnv Normal None) 1 1 demoIndexes 3) [demoEdge ''a'' ''b''])) \<and>
   concat (map (edgeOps (demoEnv Normal None) 1 1 demoIndexes 3) [demoEdge ''a'' ''b'']) =
     [BatchRemove ''ab1L'', BatchRemove ''i1ab'', BatchRemove ''iNab'', BatchRemove ''ab2E'',
      BatchRemove ''ab3X'']"
proof -
  have built: "deleteEdges (demoEnv Normal None) 1 1 demoIndexes 3 [demoEdge ''a'' ''b'']
     = Inr ''Rab1L;Ri1ab;RiNab;Rab2E;Rab3X;''"
    by (simp add: demo_defs)
  have listed: "concat (map (edgeOps (demoEnv Normal None) 1 1 demoIndexes 3) [demoEdge ''a'' ''b'']) =
     [BatchRemove ''ab1L'', BatchRemove ''i1ab'', BatchRemove ''iNab'', BatchRemove ''ab2E'',
      BatchRemove ''ab3X'']"
    by (simp add: demo_defs)
  from deleteEdges_operation_order [OF built] built listed show ?thesis by blast
qed

subsection \<open>Which state decides the branch of an index\<close>

text \<open>
  Claim C2, as amended. For every edge record and every index of its type whose values
  can be collected, the branch taken is decided by the lifecycle state that
  \<open>getIndexState\<close> reports for the space and the partition: the query takes no index,
  so all such indexes of an edge record are treated alike, all by deferred-deletion
  entries (Rebuilding), all by direct removals (Normal), or the construction ends with a
  conflict at the first of them (Locked).
\<close>

theorem index_branch_decided_by_partition_state:
  "indexLoop env spaceId vidLen partId edge val indexes None batch =
     (case getEdgePropReader env spaceId (edge_type edge) val of
        None \<Rightarrow>
          if \<forall>index\<in>set indexes. edge_type edge \<noteq> schema_edge_type index then Inr batch
          else Inl E_INVALID_DATA
      | Some r \<Rightarrow>
          (case branchOps (getIndexState env spaceId partId) (deleteOperationKey env partId)
                  (indexKeys env vidLen partId edge r indexes) of
             Inl err \<Rightarrow> Inl err
           | Inr ops \<Rightarrow> Inr (batch @ ops)))"
  by (rule indexLoop_char)

theorem index_branch_decided_by_partition_state_witness:
  "indexLoop (demoEnv Rebuilding None) 1 1 3 (demoEdge ''a'' ''b'') ''row'' demoIndexes None []
     = Inr [BatchPut ''op'' ''i1ab'', BatchPut ''op'' ''iNab''] \<and>
   indexLoop (demoEnv Normal None) 1 1 3 (demoEdge ''a'' ''b'') ''row'' demoIndexes None []
     = Inr [BatchRemove ''i1ab'', BatchRemove ''iNab''] \<and>
   indexLoop (demoEnv Locked None) 1 1 3 (demoEdge ''a'' ''b'') ''row'' demoIndexes None []
     = Inl E_DATA_CONFLICT_ERROR"
  using index_branch_decided_by_partition_state [of "demoEnv Rebuilding None" 1 1 3 "demoEdge ''a'' ''b''" "''row''" demoIndexes "[]"]
    index_branch_decided_by_partition_state [of "demoEnv Normal None" 1 1 3 "demoEdge ''a'' ''b''" "''row''" demoIndexes "[]"]
    index_branch_decided_by_partition_state [of "demoEnv Locked None" 1 1 3 "demoEdge ''a'' ''b''" "''row''" demoIndexes "[]"]
  by (simp add: demoEnv_def demoEdge_def demoIndex_def demoIndexes_def indexKeys_def branchOps_def)

text \<open>
  The claim as it was stated has the state decided per index, so that two indexes of
  one partition may be classified differently within one batch construction. Take
  index 1 Normal and index 3 being rebuilt: the spec's loop removes the key of index 1
  and defers the key of index 3. The source's loop yields this batch under no state of
  the partition: it removes both, defers both, or reports the conflict. In general, in
  no environment does the source's loop emit both a direct removal and a
  deferred-deletion entry.
\<close>

theorem no_mixed_classification_in_index_loop:
  "specIndexLoop (demoEnv Normal None) demoClassify 1 1 3 (demoEdge ''a'' ''b'') ''row'' demoIndexes []
     = Inr [BatchRemove ''i1ab'', BatchPut ''op'' ''iNab''] \<and>
   indexLoop (demoEnv Normal None) 1 1 3 (demoEdge ''a'' ''b'') ''row'' demoIndexes None []
     = Inr [BatchRemove ''i1ab'', BatchRemove ''iNab''] \<and>
   indexLoop (demoEnv Rebuilding None) 1 1 3 (demoEdge ''a'' ''b'') ''row'' demoIndexes None []
     = Inr [BatchPut ''op'' ''i1ab'', BatchPut ''op'' ''iNab''] \<and>
   indexLoop (demoEnv Locked None) 1 1 3 (demoEdge ''a'' ''b'') ''row'' demoIndexes None []
     = Inl E_DATA_CONFLICT_ERROR \<and>
   \<not> (\<exists>env spaceId vidLen partId edge val indexes ops k opKey k'.
        indexLoop env spaceId vidLen partId edge val indexes None [] = Inr ops \<and>
        BatchRemove k \<in> set ops \<and> BatchPut opKey k' \<in> set ops)"
proof -
  have mixed: "\<not> (\<exists>env spaceId vidLen partId edge val indexes ops k opKey k'.
        indexLoop env spaceId vidLen partId edge val indexes None [] = Inr ops \<and>
        BatchRemove k \<in> set ops \<and> BatchPut opKey k' \<in> set ops)"
    by (auto simp add: indexLoop_char split: option.splits if_splits sum.splits
          dest: branchOps_not_mixed)
  have concrete:
    "specIndexLoop (demoEnv Normal None) demoClassify 1 1 3 (demoEdge ''a'' ''b'') ''row'' demoIndexes []
       = Inr [BatchRemove ''i1ab'', BatchPut ''op'' ''iNab'']"
    "indexLoop (demoEnv Normal None) 1 1 3 (demoEdge ''a'' ''b'') ''row'' demoIndexes None []
       = Inr [BatchRemove ''i1ab'', BatchRemove ''iNab'']"
    "indexLoop (demoEnv Rebuilding None) 1 1 3 (demoEdge ''a'' ''b'') ''row'' demoIndexes None []
       = Inr [BatchPut ''op'' ''i1ab'', BatchPut ''op'' ''iNab'']"
    "indexLoop (demoEnv Locked None) 1 1 3 (demoEdge ''a'' ''b'') ''row'' demoIndexes None []
       = Inl E_DATA_CONFLICT_ERROR"
    by (simp_all add: demo_defs demoClassify_def)
  from mixed concrete show ?thesis by blast
qed

subsection \<open>An index that is being rebuilt\<close>

text \<open>
  Claim C5. When the state is Rebuilding and the batch of a partition has been built,
  then for every edge of the request with an edge record, and every index of the edge's
  type whose values can be collected from the decoded record, the batch holds a put of
  a deferred-deletion entry whose value is the index key; and every removal in the
  batch removes a key that the scan of a requested edge returned, so none is issued for
  an index key.
\<close>

theorem rebuilding_defers_index_deletion:
  assumes state: "getIndexState env spaceId partId = Rebuilding"
    and built: "deleteEdgesLoop env spaceId vidLen indexes partId edges [] = Inr ops"
    and edge: "edge \<in> set edges"
    and found: "dropWhile (isLockKV env vidLen) (scanned env spaceId vidLen partId edge) = (k, v) # iter2"
      "isEdge env vidLen k"
    and decoded: "getEdgePropReader env spaceId (edge_type edge) v = Some r"
    and index: "index \<in> set indexes" "edge_type edge = schema_edge_type index"
    and collected: "collectIndexValues env r (index_fields index) = Some values"
  shows "BatchPut (deleteOperationKey env partId)
           (edgeIndexKey env vidLen partId (index_id index) (src edge) (ranking edge) (dst edge) values)
           \<in> set ops \<and>
         (\<forall>key. BatchRemove key \<in> set ops \<longrightarrow>
            (\<exists>e\<in>set edges. key \<in> fst ` set (scanned env spaceId vidLen partId e)))"
proof -
  have ops: "ops = concat (map (edgeOps env spaceId vidLen indexes partId) edges)"
    using deleteEdgesLoop_Inr [OF built] by simp
  let ?key = "edgeIndexKey env vidLen partId (index_id index) (src edge) (ranking edge) (dst edge) values"
  have "indexOps env spaceId vidLen partId edge v indexes =
          map (BatchPut (deleteOperationKey env partId)) (indexKeys env vidLen partId edge r indexes)"
    by (simp add: indexOps_def indexLoop_char decoded state branchOps_def)
  moreover have "?key \<in> set (indexKeys env vidLen partId edge r indexes)"
    using index collected by (rule indexKeys_member)
  ultimately have "BatchPut (deleteOperationKey env partId) ?key
      \<in> set (indexOps env spaceId vidLen partId edge v indexes)"
    by simp
  then have "BatchPut (deleteOperationKey env partId) ?key
      \<in> set (edgeOps env spaceId vidLen indexes partId edge)"
    unfolding edgeOps_scan found list.case prod.case using found(2) by simp
  with edge have put: "BatchPut (deleteOperationKey env partId) ?key \<in> set ops"
    unfolding ops by auto
  have "\<exists>e\<in>set edges. key \<in> fst ` set (scanned env spaceId vidLen partId e)"
    if "BatchRemove key \<in> set ops" for key
  proof -
    from that obtain e where e: "e \<in> set edges"
      and "BatchRemove key \<in> set (edgeOps env spaceId vidLen indexes partId e)"
      unfolding ops by auto
    from edgeOps_removals [OF this(2)] indexOps_rebuilding [OF state]
    have "key \<in> fst ` set (scanned env spaceId vidLen partId e)" by blast
    with e show ?thesis by blast
  qed
  with put show ?thesis by blast
qed

theorem rebuilding_defers_index_deletion_witness:
  "getIndexState (demoEnv Rebuilding None) 1 3 = Rebuilding \<and>
   deleteEdgesLoop (demoEnv Rebuilding None) 1 1 demoIndexes 3 [demoEdge ''a'' ''b''] [] =
     Inr [BatchRemove ''ab1L'', BatchPut ''op'' ''i1ab'', BatchPut ''op'' ''iNab'',
          BatchRemove ''ab2E'', BatchRemove ''ab3X''] \<and>
   BatchPut ''op'' ''i1ab'' \<in> set [BatchRemove ''ab1L'', BatchPut ''op'' ''i1ab'',
          BatchPut ''op'' ''iNab'', BatchRemove ''ab2E'', BatchRemove ''ab3X''] \<and>
   (\<exists>e\<in>set [demoEdge ''a'' ''b''].
      ''ab2E'' \<in> fst ` set (scanned (demoEnv Rebuilding None) 1 1 3 e))"
proof -
  let ?env = "demoEnv Rebuilding None"
  let ?ops = "[BatchRemove ''ab1L'', BatchPut ''op'' ''i1ab'', BatchPut ''op'' ''iNab'',
          BatchRemove ''ab2E'', BatchRemove ''ab3X'']"
  have h1: "getIndexState ?env 1 3 = Rebuilding" by (simp add: demoEnv_def)
  have h2: "deleteEdgesLoop ?env 1 1 demoIndexes 3 [demoEdge ''a'' ''b''] [] = Inr ?ops"
    by (simp add: demo_defs)
  have h3: "demoEdge ''a'' ''b'' \<in> set [demoEdge ''a'' ''b'']" by simp
  have h4: "dropWhile (isLockKV ?env 1) (scanned ?env 1 1 3 (demoEdge ''a'' ''b''))
              = (''ab2E'', ''row'') # [(''ab3X'', ''old'')]"
    by (simp add: demo_defs)
  have h5: "isEdge ?env 1 ''ab2E''" by (simp add: demoEnv_def)
  have h6: "getEdgePropReader ?env 1 (edge_type (demoEdge ''a'' ''b'')) ''row'' = Some ''row''"
    by (simp add: demoEnv_def)
  have h7: "demoIndex 1 [''f''] \<in> set demoIndexes" by (simp add: demoIndexes_def)
  have h8: "edge_type (demoEdge ''a'' ''b'') = schema_edge_type (demoIndex 1 [''f''])"
    by (simp add: demoEdge_def demoIndex_def)
  have h9: "collectIndexValues ?env ''row'' (index_fields (demoIndex 1 [''f''])) = Some ''row''"
    by (simp add: demoEnv_def demoIndex_def)
  have removed: "BatchRemove ''ab2E'' \<in> set ?ops" by simp
  from rebuilding_defers_index_deletion [OF h1 h2 h3 h4 h5 h6 h7 h8 h9] removed
  have "BatchPut (deleteOperationKey ?env 3)
           (edgeIndexKey ?env 1 3 (index_id (demoIndex 1 [''f''])) (src (demoEdge ''a'' ''b''))
              (ranking (demoEdge ''a'' ''b'')) (dst (demoEdge ''a'' ''b'')) ''row'') \<in> set ?ops"
    and "\<exists>e\<in>set [demoEdge ''a'' ''b'']. ''ab2E'' \<in> fst ` set (scanned ?env 1 1 3 e)"
    by blast+
  moreover have "BatchPut (deleteOperationKey ?env 3)
           (edgeIndexKey ?env 1 3 (index_id (demoIndex 1 [''f''])) (src (demoEdge ''a'' ''b''))
              (ranking (demoEdge ''a'' ''b'')) (dst (demoEdge ''a'' ''b'')) ''row'')
          = BatchPut ''op'' ''i1ab''"
    by (simp add: demoEnv_def demoEdge_def demoIndex_def)
  ultimately show ?thesis using h1 h2 by simp
qed

subsection \<open>An index whose values cannot be collected\<close>

text \<open>
  Claim C6. When the values of an index cannot be collected from the decoded record,
  only that index is skipped: the edge is processed exactly as if the index were not in
  the list (no operation for it, no error from it, the other indexes treated as
  before), and unless the state is Locked the edge's operations are emitted and contain
  the removal of the edge record.
\<close>

theorem extraction_failure_skips_only_that_index:
  assumes scan: "kv_prefix env spaceId partId
       (edgePrefix env vidLen partId (src edge) (edge_type edge) (ranking edge) (dst edge))
       = (SUCCEEDED, iter)"
    and found: "dropWhile (isLockKV env vidLen) iter = (k, v) # iter2" "isEdge env vidLen k"
    and decoded: "getEdgePropReader env spaceId (edge_type edge) v = Some r"
    and index: "edge_type edge = schema_edge_type index"
    and failed: "collectIndexValues env r (index_fields index) = None"
  shows "deleteEdge env spaceId vidLen (before @ index # after) partId edge batch =
         deleteEdge env spaceId vidLen (before @ after) partId edge batch \<and>
         (getIndexState env spaceId partId \<noteq> Locked \<longrightarrow>
            (\<exists>ops. deleteEdge env spaceId vidLen (before @ index # after) partId edge batch
                     = Inr (batch @ ops) \<and> BatchRemove k \<in> set ops))"
proof -
  have keys: "indexKeys env vidLen partId edge r (before @ index # after) =
              indexKeys env vidLen partId edge r (before @ after)"
    using index failed by (simp add: indexKeys_append indexKeys_Cons)
  have loop: "indexLoop env spaceId vidLen partId edge v (before @ index # after) None [] =
              indexLoop env spaceId vidLen partId edge v (before @ after) None []"
    by (simp add: indexLoop_char decoded keys)
  have same: "deleteEdge env spaceId vidLen (before @ index # after) partId edge batch =
         deleteEdge env spaceId vidLen (before @ after) partId edge batch"
    unfolding deleteEdge_scan [OF scan] found list.case prod.case loop ..
  have "\<exists>ops. deleteEdge env spaceId vidLen (before @ index # after) partId edge batch
                     = Inr (batch @ ops) \<and> BatchRemove k \<in> set ops"
    if "getIndexState env spaceId partId \<noteq> Locked"
  proof -
    from that obtain ops where
      "indexLoop env spaceId vidLen partId edge v (before @ index # after) None [] = Inr ops"
      by (cases "getIndexState env spaceId partId")
         (simp_all add: indexLoop_char decoded branchOps_def)
    then show ?thesis
      unfolding deleteEdge_scan [OF scan] found list.case prod.case using found(2) by simp
  qed
  with same show ?thesis by blast
qed

theorem extraction_failure_skips_only_that_index_witness:
  "deleteEdge (demoEnv Normal None) 1 1 ([demoIndex 1 [''f'']] @ demoIndex 2 [] # [demoIndex 3 [''g'']])
      3 (demoEdge ''a'' ''b'') [] =
   deleteEdge (demoEnv Normal None) 1 1 ([demoIndex 1 [''f'']] @ [demoIndex 3 [''g'']])
      3 (demoEdge ''a'' ''b'') [] \<and>
   deleteEdge (demoEnv Normal None) 1 1 ([demoIndex 1 [''f'']] @ [demoIndex 3 [''g'']])
      3 (demoEdge ''a'' ''b'') [] =
     Inr [BatchRemove ''ab1L'', BatchRemove ''i1ab'', BatchRemove ''iNab'', BatchRemove ''ab2E'',
          BatchRemove ''ab3X''] \<and>
   (\<exists>ops. deleteEdge (demoEnv Normal None) 1 1
             ([demoIndex 1 [''f'']] @ demoIndex 2 [] # [demoIndex 3 [''g'']]) 3 (demoEdge ''a'' ''b'') []
             = Inr ([] @ ops) \<and> BatchRemove ''ab2E'' \<in> set ops)"
proof -
  let ?env = "demoEnv Normal None"
  let ?edge = "demoEdge ''a'' ''b''"
  have h1: "kv_prefix ?env 1 3 (edgePrefix ?env 1 3 (src ?edge) (edge_type ?edge) (ranking ?edge) (dst ?edge))
       = (SUCCEEDED, [(''ab1L'', ''''), (''ab2E'', ''row''), (''ab3X'', ''old'')])"
    by (simp add: demo_defs)
  have h2: "dropWhile (isLockKV ?env 1) [(''ab1L'', ''''), (''ab2E'', ''row''), (''ab3X'', ''old'')]
       = (''ab2E'', ''row'') # [(''ab3X'', ''old'')]"
    by (simp add: demo_defs)
  have h3: "isEdge ?env 1 ''ab2E''" by (simp add: demoEnv_def)
  have h4: "getEdgePropReader ?env 1 (edge_type ?edge) ''row'' = Some ''row''"
    by (simp add: demoEnv_def)
  have h5: "edge_type ?edge = schema_edge_type (demoIndex 2 [])"
    by (simp add: demoEdge_def demoIndex_def)
  have h6: "collectIndexValues ?env ''row'' (index_fields (demoIndex 2 [])) = None"
    by (simp add: demoEnv_def demoIndex_def)
  have h7: "getIndexState ?env 1 3 \<noteq> Locked" by (simp add: demoEnv_def)
  have without: "deleteEdge ?env 1 1 ([demoIndex 1 [''f'']] @ [demoIndex 3 [''g'']]) 3 ?edge [] =
     Inr [BatchRemove ''ab1L'', BatchRemove ''i1ab'', BatchRemove ''iNab'', BatchRemove ''ab2E'',
          BatchRemove ''ab3X'']"
    by (simp add: demo_defs)
  from extraction_failure_skips_only_that_index [OF h1 h2 h3 h4 h5 h6, of "[demoIndex 1 [''f'']]" "[demoIndex 3 [''g'']]" "[]"] h7 without
  show ?thesis by blast
qed

section \<open>Properties of the request handler\<close>

subsection \<open>The reporting helpers, field by field\<close>

lemma handleAsync_fields:
  "codes (handleAsync partId code s) = codes s @ [(partId, code)]"
  "pending (handleAsync partId code s) = pending s"
  "edgesML (handleAsync partId code s) = edgesML s"
  "callingNum (handleAsync partId code s) = callingNum s"
  "finished (handleAsync partId code s) =
     (if Suc (length (codes s)) = callingNum s then Suc (finished s) else finished s)"
  by (simp_all add: handleAsync_def pushResultCode_def onFinished_def Let_def)

lemma doRemove_fields:
  "codes (doRemove partId keys s) = codes s"
  "pending (doRemove partId keys s) = pending s @ [MultiRemove partId keys]"
  "edgesML (doRemove partId keys s) = edgesML s"
  "callingNum (doRemove partId keys s) = callingNum s"
  "finished (doRemove partId keys s) = finished s"
  by (simp_all add: doRemove_def)

lemma pushResultCode_all:
  "foldl (\<lambda>s' part. pushResultCode code (fst part) s') s partEdges =
     s\<lparr>codes := codes s @ map (\<lambda>part. (fst part, code)) partEdges\<rparr>"
  by (induction partEdges arbitrary: s) (simp_all add: pushResultCode_def)

subsection \<open>The fast path's key loop\<close>

lemma collectKeys_valid:
  "\<forall>edge\<in>set edges. isValidVidLen env vidLen (src edge) (dst edge) \<Longrightarrow>
     collectKeys env vidLen partId edges keys =
       (SUCCEEDED, keys @ map (\<lambda>edge. edgeKey env vidLen partId (src edge) (edge_type edge)
                                         (ranking edge) (dst edge)) edges)"
  by (induction edges arbitrary: keys) simp_all

lemma collectKeys_invalid:
  "\<exists>edge\<in>set edges. \<not> isValidVidLen env vidLen (src edge) (dst edge) \<Longrightarrow>
     fst (collectKeys env vidLen partId edges keys) = E_INVALID_VID"
  by (induction edges arbitrary: keys) auto

lemma processPartNoIndex_valid:
  assumes "\<forall>edge\<in>set (snd part). isValidVidLen env vidLen (src edge) (dst edge)"
  shows "processPartNoIndex env vidLen part s =
     doRemove (fst part)
       (map (\<lambda>edge. edgeKey env vidLen (fst part) (src edge) (edge_type edge)
                       (ranking edge) (dst edge)) (snd part)) s"
  by (simp add: processPartNoIndex_def Let_def collectKeys_valid [OF assms])

lemma processPartNoIndex_invalid:
  assumes "\<exists>edge\<in>set (snd part). \<not> isValidVidLen env vidLen (src edge) (dst edge)"
  shows "processPartNoIndex env vidLen part s = handleAsync (fst part) E_INVALID_VID s"
  using collectKeys_invalid [OF assms, of "fst part" "[]"]
  by (auto simp add: processPartNoIndex_def Let_def split: prod.splits)

lemma processPartNoIndex_cases:
  "processPartNoIndex env vidLen part s = handleAsync (fst part) E_INVALID_VID s \<or>
   (\<exists>keys. processPartNoIndex env vidLen part s = doRemove (fst part) keys s)"
  using processPartNoIndex_valid [of part env vidLen s] processPartNoIndex_invalid [of part env vidLen s]
  by blast

lemma processPartIndexed_cases:
  "(\<exists>code. processPartIndexed env spaceId vidLen indexes part s = handleAsync (fst part) code s) \<or>
   (\<exists>batch locks held. processPartIndexed env spaceId vidLen indexes part s =
       s\<lparr>edgesML := held, pending := pending s @ [AppendBatch (fst part) batch locks]\<rparr>)"
  unfolding processPartIndexed_def Let_def by (auto split: sum.splits)

subsection \<open>A partition's results come from its own step\<close>


lemma stepOf_noIndex: "stepOf (\<lambda>s part. processPartNoIndex env vidLen part s)"
  unfolding stepOf_def
proof (intro allI)
  fix s part
  from processPartNoIndex_cases [of env vidLen part s]
  show "(\<exists>code. processPartNoIndex env vidLen part s = handleAsync (fst part) code s) \<or>
     (\<exists>sub held. subPart sub = fst part \<and>
        processPartNoIndex env vidLen part s = s\<lparr>edgesML := held, pending := pending s @ [sub]\<rparr>)"
  proof
    assume "processPartNoIndex env vidLen part s = handleAsync (fst part) E_INVALID_VID s"
    then show ?thesis by blast
  next
    assume "\<exists>keys. processPartNoIndex env vidLen part s = doRemove (fst part) keys s"
    then obtain keys where "processPartNoIndex env vidLen part s = doRemove (fst part) keys s" ..
    then have "subPart (MultiRemove (fst part) keys) = fst part \<and>
        processPartNoIndex env vidLen part s =
          s\<lparr>edgesML := edgesML s, pending := pending s @ [MultiRemove (fst part) keys]\<rparr>"
      by (simp add: doRemove_def)
    then show ?thesis by blast
  qed
qed

lemma stepOf_indexed: "stepOf (\<lambda>s part. processPartIndexed env spaceId vidLen indexes part s)"
  unfolding stepOf_def
proof (intro allI)
  fix s part
  from processPartIndexed_cases [of env spaceId vidLen indexes part s]
  show "(\<exists>code. processPartIndexed env spaceId vidLen indexes part s = handleAsync (fst part) code s) \<or>
     (\<exists>sub held. subPart sub = fst part \<and>
        processPartIndexed env spaceId vidLen indexes part s =
          s\<lparr>edgesML := held, pending := pending s @ [sub]\<rparr>)"
  proof
    assume "\<exists>code. processPartIndexed env spaceId vidLen indexes part s = handleAsync (fst part) code s"
    then show ?thesis by blast
  next
    assume "\<exists>batch locks held. processPartIndexed env spaceId vidLen indexes part s =
       s\<lparr>edgesML := held, pending := pending s @ [AppendBatch (fst part) batch locks]\<rparr>"
    then obtain batch locks held where
      "processPartIndexed env spaceId vidLen indexes part s =
         s\<lparr>edgesML := held, pending := pending s @ [AppendBatch (fst part) batch locks]\<rparr>"
      by blast
    then have "subPart (AppendBatch (fst part) batch locks) = fst part \<and>
       processPartIndexed env spaceId vidLen indexes part s =
         s\<lparr>edgesML := held, pending := pending s @ [AppendBatch (fst part) batch locks]\<rparr>"
      by simp
    then show ?thesis by blast
  qed
qed

lemma step_other:
  assumes "stepOf f" and "fst part \<noteq> p"
  shows "partCodes p (f s part) = partCodes p s \<and> partPending p (f s part) = partPending p s"
proof -
  from assms(1) have
    "(\<exists>code. f s part = handleAsync (fst part) code s) \<or>
     (\<exists>sub held. subPart sub = fst part \<and> f s part = s\<lparr>edgesML := held, pending := pending s @ [sub]\<rparr>)"
    unfolding stepOf_def by blast
  with assms(2) show ?thesis
    by (auto simp add: partCodes_def partPending_def handleAsync_fields)
qed

lemma fold_other:
  assumes "stepOf f" and "p \<notin> fst ` set partEdges"
  shows "partCodes p (foldl f s partEdges) = partCodes p s \<and>
         partPending p (foldl f s partEdges) = partPending p s"
  using assms(2)
proof (induction partEdges arbitrary: s)
  case Nil
  then show ?case by simp
next
  case (Cons part partEdges)
  from Cons.prems have "fst part \<noteq> p" and "p \<notin> fst ` set partEdges" by auto
  with Cons.IH [of "f s part"] step_other [OF assms(1), of part p s] show ?case by simp
qed

lemma fold_own:
  assumes "stepOf f" and "distinct (map fst partEdges)" and "(p, edges) \<in> set partEdges"
  shows "\<exists>s'. partCodes p s' = partCodes p s \<and> partPending p s' = partPending p s \<and>
           callingNum s' = callingNum s \<and>
           partCodes p (foldl f s partEdges) = partCodes p (f s' (p, edges)) \<and>
           partPending p (foldl f s partEdges) = partPending p (f s' (p, edges))"
proof -
  from assms(3) obtain before after where split: "partEdges = before @ (p, edges) # after"
    by (auto dest: split_list)
  with assms(2) have out: "p \<notin> fst ` set before" "p \<notin> fst ` set after"
    by auto
  let ?s' = "foldl f s before"
  have calling: "callingNum (foldl f s xs) = callingNum s" for xs s
  proof (induction xs arbitrary: s)
    case Nil
    show ?case by simp
  next
    case (Cons x xs)
    from assms(1) have "callingNum (f s x) = callingNum s"
      unfolding stepOf_def by (metis handleAsync_fields(4) ProcessorState.select_convs(2)
          ProcessorState.surjective ProcessorState.update_convs(4,5))
    with Cons.IH [of "f s x"] show ?case by simp
  qed
  have "foldl f s partEdges = foldl f (f ?s' (p, edges)) after"
    by (simp add: split)
  with fold_other [OF assms(1) out(1), of s] fold_other [OF assms(1) out(2), of "f ?s' (p, edges)"]
    calling [of s before]
  show ?thesis by metis
qed

lemma noIndex_edgesML:
  "edgesML (foldl (\<lambda>s' part. processPartNoIndex env vidLen part s') s partEdges) = edgesML s"
proof (induction partEdges arbitrary: s)
  case Nil
  show ?case by simp
next
  case (Cons part partEdges)
  from processPartNoIndex_cases [of env vidLen part s]
  have "edgesML (processPartNoIndex env vidLen part s) = edgesML s"
    by (auto simp add: handleAsync_fields doRemove_fields)
  with Cons.IH [of "processPartNoIndex env vidLen part s"] show ?case by simp
qed

lemma initState_part:
  "partCodes p (initState held) = []" "partPending p (initState held) = []"
  "partCodes p (s\<lparr>callingNum := n\<rparr>) = partCodes p s"
  "partPending p (s\<lparr>callingNum := n\<rparr>) = partPending p s"
  by (simp_all add: partCodes_def partPending_def initState_def)

lemma commitAll_other:
  "\<forall>sub\<in>set subs. subPart sub \<noteq> p \<Longrightarrow> commitAll apply subs keyspace p = keyspace p"
  unfolding commitAll_def
  by (induction subs arbitrary: keyspace) (simp_all add: commit_def)

lemma partPending_Nil: "partPending p s = [] \<longleftrightarrow> (\<forall>sub\<in>set (pending s). subPart sub \<noteq> p)"
  by (auto simp add: partPending_def filter_empty_conv)

lemma complete_fields:
  "codes (complete sub code s) = codes s @ [(subPart sub, code)]"
  "pending (complete sub code s) = pending s"
  "callingNum (complete sub code s) = callingNum s"
  "finished (complete sub code s) =
     (if Suc (length (codes s)) = callingNum s then Suc (finished s) else finished s)"
  by (cases sub; simp add: handleAsync_fields Let_def)+

lemma fire_fields:
  assumes "i < length (pending s)"
  shows "codes (fire i code s) = codes s @ [(subPart (pending s ! i), code)]"
    and "pending (fire i code s) = take i (pending s) @ drop (Suc i) (pending s)"
    and "callingNum (fire i code s) = callingNum s"
    and "finished (fire i code s) =
       (if Suc (length (codes s)) = callingNum s then Suc (finished s) else finished s)"
  using assms by (simp_all add: fire_def complete_fields)

lemma fire_other:
  assumes "partPending p s = []"
  shows "partCodes p (fire i code s) = partCodes p s \<and> partPending p (fire i code s) = []"
proof (cases "i < length (pending s)")
  case False
  with assms show ?thesis by (simp add: fire_def)
next
  case True
  from assms have none: "\<forall>sub\<in>set (pending s). subPart sub \<noteq> p"
    by (simp add: partPending_Nil)
  with True have "subPart (pending s ! i) \<noteq> p" by simp
  moreover from none have
    "\<forall>sub\<in>set (take i (pending s) @ drop (Suc i) (pending s)). subPart sub \<noteq> p"
    by (auto dest: in_set_takeD in_set_dropD)
  ultimately show ?thesis
    using True by (simp add: partCodes_def partPending_def fire_fields filter_empty_conv)
qed

lemma delivers_other:
  assumes "delivers s s'" and "partPending p s = []"
  shows "partCodes p s' = partCodes p s \<and> partPending p s' = []"
  using assms
proof (induction rule: delivers.induct)
  case (delivers_refl s)
  then show ?case by simp
next
  case (delivers_step s s' i code)
  then have "partCodes p s' = partCodes p s" and "partPending p s' = []" by simp_all
  with fire_other [of p s' i code] show ?case by simp
qed

lemma deleteEdgesLoop_append:
  "deleteEdgesLoop env spaceId vidLen indexes partId (xs @ ys) batch =
     (case deleteEdgesLoop env spaceId vidLen indexes partId xs batch of
        Inl err \<Rightarrow> Inl err
      | Inr batch' \<Rightarrow> deleteEdgesLoop env spaceId vidLen indexes partId ys batch')"
  by (induction xs arbitrary: batch) (simp_all split: sum.splits)

lemma deleteEdges_locked:
  assumes state: "getIndexState env spaceId partId = Locked"
    and earlier: "deleteEdgesLoop env spaceId vidLen indexes partId before [] = Inr batch"
    and scan: "kv_prefix env spaceId partId
       (edgePrefix env vidLen partId (src edge) (edge_type edge) (ranking edge) (dst edge))
       = (SUCCEEDED, iter)"
    and found: "dropWhile (isLockKV env vidLen) iter = (k, v) # iter2" "isEdge env vidLen k"
    and decoded: "getEdgePropReader env spaceId (edge_type edge) v = Some r"
    and index: "index \<in> set indexes" "edge_type edge = schema_edge_type index"
    and collected: "collectIndexValues env r (index_fields index) = Some values"
  shows "deleteEdges env spaceId vidLen indexes partId (before @ edge # after) =
           Inl E_DATA_CONFLICT_ERROR"
proof -
  from indexKeys_member [OF index collected, of vidLen partId]
  have "indexKeys env vidLen partId edge r indexes \<noteq> []" by auto
  then have "indexLoop env spaceId vidLen partId edge v indexes None [] = Inl E_DATA_CONFLICT_ERROR"
    by (simp add: indexLoop_char decoded state branchOps_def)
  then have "deleteEdge env spaceId vidLen indexes partId edge batch = Inl E_DATA_CONFLICT_ERROR"
    unfolding deleteEdge_scan [OF scan] found list.case prod.case using found(2) by simp
  then show ?thesis
    by (simp add: deleteEdges_def deleteEdgesLoop_append earlier)
qed

lemmas process_defs = process_def processPartNoIndex_def processPartIndexed_def handleAsync_def
  pushResultCode_def onFinished_def doRemove_def tryAcquireAll_def initState_def demoRequest_def
  partCodes_def partPending_def

subsection \<open>Configuration failures\<close>

text \<open>
  Claim C7. When the space's vertex-id length cannot be resolved, every partition of the
  request receives \<open>E_INVALID_SPACEVIDLEN\<close>; when the length resolves and the space's
  index set cannot, every partition receives \<open>E_SPACE_NOT_FOUND\<close>. In both cases
  nothing is submitted for any partition, no lock is taken, and the handler finishes
  before it returns.
\<close>

theorem configuration_failure_fails_every_partition:
  "(getSpaceVidLen env (space_id req) = None \<longrightarrow>
      codes (process env req s) =
        codes s @ map (\<lambda>part. (fst part, E_INVALID_SPACEVIDLEN)) (parts req) \<and>
      pending (process env req s) = pending s \<and>
      edgesML (process env req s) = edgesML s \<and>
      finished (process env req s) = Suc (finished s)) \<and>
   (getSpaceVidLen env (space_id req) \<noteq> None \<longrightarrow> getEdgeIndexes env (space_id req) = None \<longrightarrow>
      codes (process env req s) =
        codes s @ map (\<lambda>part. (fst part, E_SPACE_NOT_FOUND)) (parts req) \<and>
      pending (process env req s) = pending s \<and>
      edgesML (process env req s) = edgesML s \<and>
      finished (process env req s) = Suc (finished s))"
  by (auto simp add: process_def Let_def pushResultCode_all onFinished_def)

theorem configuration_failure_fails_every_partition_witness:
  "getSpaceVidLen (demoEnv Normal None) (space_id (demoRequest 2)) = None \<and>
   codes (process (demoEnv Normal None) (demoRequest 2) (initState [])) =
     [(3, E_INVALID_SPACEVIDLEN), (4, E_INVALID_SPACEVIDLEN), (5, E_INVALID_SPACEVIDLEN)] \<and>
   pending (process (demoEnv Normal None) (demoRequest 2) (initState [])) = [] \<and>
   finished (process (demoEnv Normal None) (demoRequest 2) (initState [])) = 1 \<and>
   getSpaceVidLen (demoEnv Normal None) (space_id (demoRequest 1)) \<noteq> None \<and>
   getEdgeIndexes (demoEnv Normal None) (space_id (demoRequest 1)) = None \<and>
   codes (process (demoEnv Normal None) (demoRequest 1) (initState [])) =
     [(3, E_SPACE_NOT_FOUND), (4, E_SPACE_NOT_FOUND), (5, E_SPACE_NOT_FOUND)] \<and>
   pending (process (demoEnv Normal None) (demoRequest 1) (initState [])) = [] \<and>
   finished (process (demoEnv Normal None) (demoRequest 1) (initState [])) = 1"
proof -
  have h1: "getSpaceVidLen (demoEnv Normal None) (space_id (demoRequest 2)) = None"
    by (simp add: demoEnv_def demoRequest_def)
  have h2: "getSpaceVidLen (demoEnv Normal None) (space_id (demoRequest 1)) \<noteq> None"
    by (simp add: demoEnv_def demoRequest_def)
  have h3: "getEdgeIndexes (demoEnv Normal None) (space_id (demoRequest 1)) = None"
    by (simp add: demoEnv_def)
  from configuration_failure_fails_every_partition [of "demoEnv Normal None" "demoRequest 2" "initState []"] h1
    configuration_failure_fails_every_partition [of "demoEnv Normal None" "demoRequest 1" "initState []"] h2 h3
  show ?thesis by (simp add: initState_def demoRequest_def)
qed

subsection \<open>The fast path\<close>

text \<open>
  Claim C8. When the space has no index, every partition of the request is handled
  without taking a lock: a partition all of whose edges have vertex ids of the space's
  length submits one remove-only batch holding the encoded key of every edge, in order,
  and reports nothing yet; a partition with an edge that fails the test reports
  \<open>E_INVALID_VID\<close> and submits nothing.
\<close>

theorem fast_path_validates_then_removes:
  assumes vid: "getSpaceVidLen env (space_id req) = Some vidLen"
    and none: "getEdgeIndexes env (space_id req) = Some []"
    and parts: "distinct (map fst (parts req))"
    and part: "(p, edges) \<in> set (parts req)"
  shows "edgesML (process env req (initState held)) = held \<and>
    (if \<forall>edge\<in>set edges. isValidVidLen env vidLen (src edge) (dst edge)
     then partCodes p (process env req (initState held)) = [] \<and>
          partPending p (process env req (initState held)) =
            [MultiRemove p (map (\<lambda>edge. edgeKey env vidLen p (src edge) (edge_type edge)
                                           (ranking edge) (dst edge)) edges)]
     else partCodes p (process env req (initState held)) = [(p, E_INVALID_VID)] \<and>
          partPending p (process env req (initState held)) = [])"
proof -
  let ?f = "\<lambda>s' part. processPartNoIndex env vidLen part s'"
  let ?s1 = "(initState held)\<lparr>callingNum := length (parts req)\<rparr>"
  have run: "process env req (initState held) = foldl ?f ?s1 (parts req)"
    by (simp add: process_def Let_def vid none)
  have locks: "edgesML (process env req (initState held)) = held"
    by (simp add: run noIndex_edgesML) (simp add: initState_def)
  from fold_own [OF stepOf_noIndex [of env vidLen] parts part, where s = ?s1]
  obtain s' where s': "partCodes p s' = []" "partPending p s' = []"
    and own: "partCodes p (foldl ?f ?s1 (parts req)) = partCodes p (?f s' (p, edges))"
      "partPending p (foldl ?f ?s1 (parts req)) = partPending p (?f s' (p, edges))"
    by (auto simp add: initState_part)
  show ?thesis
  proof (cases "\<forall>edge\<in>set edges. isValidVidLen env vidLen (src edge) (dst edge)")
    case True
    then have "processPartNoIndex env vidLen (p, edges) s' =
        doRemove p (map (\<lambda>edge. edgeKey env vidLen p (src edge) (edge_type edge)
                                   (ranking edge) (dst edge)) edges) s'"
      using processPartNoIndex_valid [of "(p, edges)" env vidLen s'] by simp
    with s' have "partCodes p (?f s' (p, edges)) = []"
      and "partPending p (?f s' (p, edges)) =
            [MultiRemove p (map (\<lambda>edge. edgeKey env vidLen p (src edge) (edge_type edge)
                                           (ranking edge) (dst edge)) edges)]"
      by (simp_all add: partCodes_def partPending_def doRemove_fields)
    with True locks own show ?thesis by (simp add: run)
  next
    case False
    then have "processPartNoIndex env vidLen (p, edges) s' = handleAsync p E_INVALID_VID s'"
      using processPartNoIndex_invalid [of "(p, edges)" env vidLen s'] by simp
    with s' have "partCodes p (?f s' (p, edges)) = [(p, E_INVALID_VID)]"
      and "partPending p (?f s' (p, edges)) = []"
      by (simp_all add: partCodes_def partPending_def handleAsync_fields)
    with False locks own show ?thesis by (simp add: run)
  qed
qed

theorem fast_path_validates_then_removes_witness:
  "getSpaceVidLen (demoEnv Normal (Some [])) (space_id (demoRequest 1)) = Some 1 \<and>
   getEdgeIndexes (demoEnv Normal (Some [])) (space_id (demoRequest 1)) = Some [] \<and>
   distinct (map fst (parts (demoRequest 1))) \<and>
   (3, [demoEdge ''a'' ''b'']) \<in> set (parts (demoRequest 1)) \<and>
   (4, [demoEdge ''c'' ''d'', demoEdge ''a'' ''bb'']) \<in> set (parts (demoRequest 1)) \<and>
   edgesML (process (demoEnv Normal (Some [])) (demoRequest 1) (initState [])) = [] \<and>
   partCodes 3 (process (demoEnv Normal (Some [])) (demoRequest 1) (initState [])) = [] \<and>
   partPending 3 (process (demoEnv Normal (Some [])) (demoRequest 1) (initState [])) =
     [MultiRemove 3 [''ab2E'']] \<and>
   partCodes 4 (process (demoEnv Normal (Some [])) (demoRequest 1) (initState [])) =
     [(4, E_INVALID_VID)] \<and>
   partPending 4 (process (demoEnv Normal (Some [])) (demoRequest 1) (initState [])) = []"
proof -
  let ?env = "demoEnv Normal (Some [])"
  have h1: "getSpaceVidLen ?env (space_id (demoRequest 1)) = Some 1"
    by (simp add: demoEnv_def demoRequest_def)
  have h2: "getEdgeIndexes ?env (space_id (demoRequest 1)) = Some []"
    by (simp add: demoEnv_def)
  have h3: "distinct (map fst (parts (demoRequest 1)))"
    by (simp add: demoRequest_def)
  have h4: "(3, [demoEdge ''a'' ''b'']) \<in> set (parts (demoRequest 1))"
    by (simp add: demoRequest_def)
  have h5: "(4, [demoEdge ''c'' ''d'', demoEdge ''a'' ''bb'']) \<in> set (parts (demoRequest 1))"
    by (simp add: demoRequest_def)
  have valid: "\<forall>edge\<in>set [demoEdge ''a'' ''b'']. isValidVidLen ?env 1 (src edge) (dst edge)"
    by (simp add: demoEnv_def demoEdge_def)
  have invalid: "\<not> (\<forall>edge\<in>set [demoEdge ''c'' ''d'', demoEdge ''a'' ''bb''].
                      isValidVidLen ?env 1 (src edge) (dst edge))"
    by (simp add: demoEnv_def demoEdge_def)
  have keys: "map (\<lambda>edge. edgeKey ?env 1 3 (src edge) (edge_type edge) (ranking edge) (dst edge))
                [demoEdge ''a'' ''b''] = [''ab2E'']"
    by (simp add: demoEnv_def demoEdge_def)
  from fast_path_validates_then_removes [OF h1 h2 h3 h4, of "[]"] fast_path_validates_then_removes [OF h1 h2 h3 h5, of "[]"] valid invalid keys h1 h2 h3 h4 h5
  show ?thesis by simp
qed

subsection \<open>A locked index\<close>

text \<open>
  Claim C4. On the index-aware path, let the state of a partition be Locked, and let
  the builder reach an index entry of one of its edges: the edges before it were built,
  the scan of the edge succeeds and shows an edge record after the locks, the record
  decodes, and an index of the edge's type has values to collect. Then the construction
  ends with \<open>E_DATA_CONFLICT_ERROR\<close>, this is the one code reported for the partition,
  nothing is submitted for it, and whatever the store does with the submissions of the
  request, now or after any callbacks, the keyspace of the partition is as before.
\<close>

theorem locked_index_aborts_partition:
  assumes vid: "getSpaceVidLen env (space_id req) = Some vidLen"
    and some: "getEdgeIndexes env (space_id req) = Some indexes" "indexes \<noteq> []"
    and parts: "distinct (map fst (parts req))"
    and part: "(p, before @ edge # after) \<in> set (parts req)"
    and state: "getIndexState env (space_id req) p = Locked"
    and earlier: "deleteEdgesLoop env (space_id req) vidLen indexes p before [] = Inr batch"
    and scan: "kv_prefix env (space_id req) p
       (edgePrefix env vidLen p (src edge) (edge_type edge) (ranking edge) (dst edge))
       = (SUCCEEDED, iter)"
    and found: "dropWhile (isLockKV env vidLen) iter = (k, v) # iter2" "isEdge env vidLen k"
    and decoded: "getEdgePropReader env (space_id req) (edge_type edge) v = Some r"
    and index: "index \<in> set indexes" "edge_type edge = schema_edge_type index"
    and collected: "collectIndexValues env r (index_fields index) = Some values"
    and later: "delivers (process env req (initState held)) s''"
  shows "deleteEdges env (space_id req) vidLen indexes p (before @ edge # after)
           = Inl E_DATA_CONFLICT_ERROR \<and>
         partCodes p (process env req (initState held)) = [(p, E_DATA_CONFLICT_ERROR)] \<and>
         partPending p (process env req (initState held)) = [] \<and>
         commitAll apply (pending (process env req (initState held))) keyspace p = keyspace p \<and>
         partCodes p s'' = [(p, E_DATA_CONFLICT_ERROR)] \<and>
         partPending p s'' = [] \<and>
         commitAll apply (pending s'') keyspace p = keyspace p"
proof -
  let ?f = "\<lambda>s' part. processPartIndexed env (space_id req) vidLen indexes part s'"
  let ?s1 = "(initState held)\<lparr>callingNum := length (parts req)\<rparr>"
  let ?s = "process env req (initState held)"
  have run: "?s = foldl ?f ?s1 (parts req)"
    using some by (simp add: process_def Let_def vid)
  have conflict: "deleteEdges env (space_id req) vidLen indexes p (before @ edge # after)
           = Inl E_DATA_CONFLICT_ERROR"
    using state earlier scan found decoded index collected by (rule deleteEdges_locked)
  from fold_own [OF stepOf_indexed [of env "space_id req" vidLen indexes] parts part, where s = ?s1]
  obtain s' where s': "partCodes p s' = []" "partPending p s' = []"
    and own: "partCodes p (foldl ?f ?s1 (parts req)) = partCodes p (?f s' (p, before @ edge # after))"
      "partPending p (foldl ?f ?s1 (parts req)) = partPending p (?f s' (p, before @ edge # after))"
    by (auto simp add: initState_part)
  have "?f s' (p, before @ edge # after) = handleAsync p E_DATA_CONFLICT_ERROR s'"
    by (simp add: processPartIndexed_def conflict)
  with s' own have now: "partCodes p ?s = [(p, E_DATA_CONFLICT_ERROR)]" "partPending p ?s = []"
    by (simp_all add: run partCodes_def partPending_def handleAsync_fields)
  from delivers_other [OF later now(2)] now(1)
  have then': "partCodes p s'' = [(p, E_DATA_CONFLICT_ERROR)]" "partPending p s'' = []"
    by simp_all
  from now(2) have "commitAll apply (pending ?s) keyspace p = keyspace p"
    by (simp add: partPending_Nil commitAll_other)
  moreover from then'(2) have "commitAll apply (pending s'') keyspace p = keyspace p"
    by (simp add: partPending_Nil commitAll_other)
  ultimately show ?thesis using conflict now then' by simp
qed

theorem locked_index_aborts_partition_witness:
  "getSpaceVidLen (demoEnv Locked (Some demoIndexes)) (space_id (demoRequest 1)) = Some 1 \<and>
   getEdgeIndexes (demoEnv Locked (Some demoIndexes)) (space_id (demoRequest 1)) = Some demoIndexes \<and>
   getIndexState (demoEnv Locked (Some demoIndexes)) (space_id (demoRequest 1)) 3 = Locked \<and>
   process (demoEnv Locked (Some demoIndexes)) (demoRequest 1) (initState []) =
     \<lparr>codes = [(3, E_DATA_CONFLICT_ERROR), (4, E_INVALID_DATA)], callingNum = 3, finished = 0,
      edgesML = [(1, 5, ''x'', 1, 0, ''y'')],
      pending = [AppendBatch 5 [] [(1, 5, ''x'', 1, 0, ''y'')]]\<rparr> \<and>
   deleteEdges (demoEnv Locked (Some demoIndexes)) (space_id (demoRequest 1)) 1 demoIndexes 3
     ([] @ demoEdge ''a'' ''b'' # []) = Inl E_DATA_CONFLICT_ERROR \<and>
   partCodes 3 (process (demoEnv Locked (Some demoIndexes)) (demoRequest 1) (initState []))
     = [(3, E_DATA_CONFLICT_ERROR)] \<and>
   partPending 3 (process (demoEnv Locked (Some demoIndexes)) (demoRequest 1) (initState [])) = [] \<and>
   commitAll (\<lambda>sub n. Suc n)
     (pending (process (demoEnv Locked (Some demoIndexes)) (demoRequest 1) (initState [])))
     (\<lambda>partId. 0 :: nat) 3 = 0 \<and>
   commitAll (\<lambda>sub n. Suc n)
     (pending (process (demoEnv Locked (Some demoIndexes)) (demoRequest 1) (initState [])))
     (\<lambda>partId. 0 :: nat) 5 = 1"
proof -
  let ?env = "demoEnv Locked (Some demoIndexes)"
  let ?edge = "demoEdge ''a'' ''b''"
  let ?s = "process ?env (demoRequest 1) (initState [])"
  have sp: "space_id (demoRequest 1) = 1" by (simp add: demoRequest_def)
  have h1: "getSpaceVidLen ?env (space_id (demoRequest 1)) = Some 1"
    by (simp add: demoEnv_def demoRequest_def)
  have h2: "getEdgeIndexes ?env (space_id (demoRequest 1)) = Some demoIndexes"
    by (simp add: demoEnv_def)
  have h3: "demoIndexes \<noteq> []" by (simp add: demoIndexes_def)
  have h4: "distinct (map fst (parts (demoRequest 1)))"
    by (simp add: demoRequest_def)
  have h5: "(3, [] @ ?edge # []) \<in> set (parts (demoRequest 1))"
    by (simp add: demoRequest_def)
  have h6: "getIndexState ?env (space_id (demoRequest 1)) 3 = Locked"
    by (simp add: demoEnv_def)
  have h7: "deleteEdgesLoop ?env (space_id (demoRequest 1)) 1 demoIndexes 3 [] [] = Inr []"
    by simp
  have h8: "kv_prefix ?env (space_id (demoRequest 1)) 3
       (edgePrefix ?env 1 3 (src ?edge) (edge_type ?edge) (ranking ?edge) (dst ?edge))
       = (SUCCEEDED, [(''ab1L'', ''''), (''ab2E'', ''row''), (''ab3X'', ''old'')])"
    by (simp add: demo_defs)
  have h9: "dropWhile (isLockKV ?env 1) [(''ab1L'', ''''), (''ab2E'', ''row''), (''ab3X'', ''old'')]
       = (''ab2E'', ''row'') # [(''ab3X'', ''old'')]"
    by (simp add: demo_defs)
  have h10: "isEdge ?env 1 ''ab2E''" by (simp add: demoEnv_def)
  have h11: "getEdgePropReader ?env (space_id (demoRequest 1)) (edge_type ?edge) ''row'' = Some ''row''"
    by (simp add: demoEnv_def)
  have h12: "demoIndex 1 [''f''] \<in> set demoIndexes" by (simp add: demoIndexes_def)
  have h13: "edge_type ?edge = schema_edge_type (demoIndex 1 [''f''])"
    by (simp add: demoEdge_def demoIndex_def)
  have h14: "collectIndexValues ?env ''row'' (index_fields (demoIndex 1 [''f''])) = Some ''row''"
    by (simp add: demoEnv_def demoIndex_def)
  have h15: "delivers ?s ?s" by (rule delivers_refl)
  have run: "?s = \<lparr>codes = [(3, E_DATA_CONFLICT_ERROR), (4, E_INVALID_DATA)], callingNum = 3,
      finished = 0, edgesML = [(1, 5, ''x'', 1, 0, ''y'')],
      pending = [AppendBatch 5 [] [(1, 5, ''x'', 1, 0, ''y'')]]\<rparr>"
    by (simp add: process_defs demo_defs)
  have other: "commitAll (\<lambda>sub n. Suc n) (pending ?s) (\<lambda>partId. 0 :: nat) 5 = 1"
    by (simp add: run commitAll_def commit_def)
  from locked_index_aborts_partition [OF h1 h2 h3 h4 h5 h6 h7 h8 h9 h10 h11 h12 h13 h14 h15,
      of "\<lambda>sub n. Suc n" "\<lambda>partId. 0 :: nat"] h1 h2 h6 run other
  show ?thesis by simp
qed

subsection \<open>Identity validation on the index-aware path\<close>

text \<open>
  The builder never consults the validity test: replacing it changes no result.
\<close>

lemma deleteEdges_ignores_isValidVidLen:
  "deleteEdges (env\<lparr>isValidVidLen := check\<rparr>) spaceId vidLen indexes partId edges =
   deleteEdges env spaceId vidLen indexes partId edges"
proof -
  have locks: "removeLocks (env\<lparr>isValidVidLen := check\<rparr>) vidLen iter batch =
               removeLocks env vidLen iter batch" for iter batch
    by (induction iter arbitrary: batch) auto
  have loop: "indexLoop (env\<lparr>isValidVidLen := check\<rparr>) spaceId vidLen partId edge val ixs reader batch =
              indexLoop env spaceId vidLen partId edge val ixs reader batch" for edge val ixs reader batch
    by (induction ixs arbitrary: reader batch) (auto simp add: Let_def split: option.splits)
  have one: "deleteEdge (env\<lparr>isValidVidLen := check\<rparr>) spaceId vidLen indexes partId edge batch =
             deleteEdge env spaceId vidLen indexes partId edge batch" for edge batch
    by (simp add: deleteEdge_def Let_def locks loop split: prod.splits list.splits)
  have "deleteEdgesLoop (env\<lparr>isValidVidLen := check\<rparr>) spaceId vidLen indexes partId edges batch =
        deleteEdgesLoop env spaceId vidLen indexes partId edges batch" for batch
    by (induction edges arbitrary: batch) (simp_all add: one split: sum.splits)
  then show ?thesis by (simp add: deleteEdges_def split: sum.splits)
qed

text \<open>
  Claim C1 asks that on the index-aware path an edge whose vertex ids do not have the
  space's length fails its partition with an invalid-identity error before any
  operation is emitted. The code does otherwise. With vertex ids of length 1 and the
  edge from \<open>ab\<close> to the empty id, the test fails, yet the builder emits the removals of
  everything under the prefix and the batch is submitted under the edge's lock; the
  same request on the fast path is answered with \<open>E_INVALID_VID\<close>.
\<close>

theorem index_path_skips_identity_validation:
  "\<not> isValidVidLen (demoEnv Normal (Some demoIndexes)) 1 ''ab'' '''' \<and>
   deleteEdges (demoEnv Normal (Some demoIndexes)) 1 1 demoIndexes 3 [demoEdge ''ab'' '''']
     = Inr ''Rab1L;Ri1ab;RiNab;Rab2E;Rab3X;'' \<and>
   process (demoEnv Normal (Some demoIndexes))
     \<lparr>space_id = 1, parts = [(3, [demoEdge ''ab'' ''''])]\<rparr> (initState []) =
     \<lparr>codes = [], callingNum = 1, finished = 0, edgesML = [(1, 3, ''ab'', 1, 0, '''')],
      pending = [AppendBatch 3 ''Rab1L;Ri1ab;RiNab;Rab2E;Rab3X;'' [(1, 3, ''ab'', 1, 0, '''')]]\<rparr> \<and>
   process (demoEnv Normal (Some []))
     \<lparr>space_id = 1, parts = [(3, [demoEdge ''ab'' ''''])]\<rparr> (initState []) =
     \<lparr>codes = [(3, E_INVALID_VID)], callingNum = 1, finished = 1, edgesML = [], pending = []\<rparr>"
  by (simp add: process_defs demo_defs)

subsection \<open>One result for every partition\<close>

lemma accounted_step:
  assumes f: "stepOf f" and inv: "accounted n handled s" and room: "length handled < n"
  shows "accounted n (handled @ [part]) (f s part)"
proof -
  from inv have n: "callingNum s = n"
    and total: "length (codes s) + length (pending s) = length handled"
    and each: "\<And>p. length (partCodes p s) + length (partPending p s) = count_list (map fst handled) p"
    and fin: "finished s = (if length (codes s) = n then 1 else 0)"
    unfolding accounted_def by simp_all
  from total room have less: "length (codes s) < n" by simp
  with fin have fin0: "finished s = 0" by simp
  from f consider
    (report) code where "f s part = handleAsync (fst part) code s"
  | (submit) sub held where "subPart sub = fst part"
      "f s part = s\<lparr>edgesML := held, pending := pending s @ [sub]\<rparr>"
    unfolding stepOf_def by blast
  then show ?thesis
  proof cases
    case report
    with n total fin0 less show ?thesis
      unfolding accounted_def
      by (auto simp add: handleAsync_fields partCodes_def partPending_def each [unfolded partCodes_def partPending_def, symmetric])
  next
    case submit
    with n total fin0 less show ?thesis
      unfolding accounted_def
      by (auto simp add: partCodes_def partPending_def each [unfolded partCodes_def partPending_def, symmetric])
  qed
qed

lemma accounted_fold:
  assumes f: "stepOf f"
  shows "accounted n handled s \<Longrightarrow> length handled + length rest \<le> n \<Longrightarrow>
           accounted n (handled @ rest) (foldl f s rest)"
proof (induction rest arbitrary: handled s)
  case Nil
  then show ?case by simp
next
  case (Cons part rest)
  from Cons.prems have "length handled < n" by simp
  from accounted_step [OF f Cons.prems(1) this, of part]
  have "accounted n (handled @ [part]) (f s part)" .
  from Cons.IH [OF this] Cons.prems(2) show ?case by simp
qed

lemma filter_without_nth:
  assumes "i < length xs"
  shows "length (filter P xs) =
           length (filter P (take i xs @ drop (Suc i) xs)) + (if P (xs ! i) then 1 else 0)"
proof -
  from assms have "xs = take i xs @ xs ! i # drop (Suc i) xs" by (rule id_take_nth_drop)
  then have "filter P xs = filter P (take i xs @ xs ! i # drop (Suc i) xs)" by simp
  then show ?thesis by simp
qed

lemma accounted_fire:
  assumes inv: "accounted n handled s" and all: "length handled = n" and i: "i < length (pending s)"
  shows "accounted n handled (fire i code s)"
proof -
  from inv have n: "callingNum s = n"
    and total: "length (codes s) + length (pending s) = length handled"
    and each: "\<And>p. length (partCodes p s) + length (partPending p s) = count_list (map fst handled) p"
    and fin: "finished s = (if length (codes s) = n then 1 else 0)"
    unfolding accounted_def by simp_all
  from total all i have less: "length (codes s) < n" by simp
  with fin have fin0: "finished s = 0" by simp
  have shorter: "length (take i (pending s) @ drop (Suc i) (pending s)) = length (pending s) - 1"
    using i by simp
  have part: "length (partCodes p (fire i code s)) + length (partPending p (fire i code s)) =
              length (partCodes p s) + length (partPending p s)" for p
    using filter_without_nth [OF i, of "\<lambda>sub. subPart sub = p"]
    by (auto simp add: partCodes_def partPending_def fire_fields [OF i])
  show ?thesis
    unfolding accounted_def
    using n total i less fin0 shorter each part
    by (simp add: fire_fields [OF i])
qed

lemma accounted_delivers:
  assumes "delivers s s'" and "accounted n handled s" and "length handled = n"
  shows "accounted n handled s'"
  using assms
proof (induction rule: delivers.induct)
  case (delivers_refl s)
  then show ?case by simp
next
  case (delivers_step s s' i code)
  then have "accounted n handled s'" by simp
  from accounted_fire [OF this delivers_step.prems(2) delivers_step.hyps(2)] show ?case .
qed

lemma count_list_distinct:
  "distinct xs \<Longrightarrow> x \<in> set xs \<Longrightarrow> count_list xs x = 1"
  by (induction xs) (auto simp add: count_list_0_iff)

lemma process_accounted:
  assumes vid: "getSpaceVidLen env (space_id req) = Some vidLen"
    and idx: "getEdgeIndexes env (space_id req) = Some indexes"
    and nonempty: "parts req \<noteq> []"
    and later: "delivers (process env req (initState held)) s'"
  shows "accounted (length (parts req)) (parts req) s'"
proof -
  let ?n = "length (parts req)"
  let ?s1 = "(initState held)\<lparr>callingNum := ?n\<rparr>"
  from nonempty have start: "accounted ?n [] ?s1"
    by (simp add: accounted_def initState_def partCodes_def partPending_def)
  have "\<exists>f. stepOf f \<and> process env req (initState held) = foldl f ?s1 (parts req)"
  proof (cases "indexes = []")
    case True
    with vid idx have "process env req (initState held) =
        foldl (\<lambda>s' part. processPartNoIndex env vidLen part s') ?s1 (parts req)"
      by (simp add: process_def Let_def)
    with stepOf_noIndex [of env vidLen] show ?thesis by blast
  next
    case False
    with vid idx have "process env req (initState held) =
        foldl (\<lambda>s' part. processPartIndexed env (space_id req) vidLen indexes part s') ?s1 (parts req)"
      by (simp add: process_def Let_def)
    with stepOf_indexed [of env "space_id req" vidLen indexes] show ?thesis by blast
  qed
  then obtain f where f: "stepOf f" and run: "process env req (initState held) = foldl f ?s1 (parts req)"
    by blast
  from accounted_fold [OF f start, of "parts req"]
  have "accounted ?n (parts req) (process env req (initState held))"
    by (simp add: run)
  from accounted_delivers [OF later this] show ?thesis by simp
qed

lemma process_reports_each_partition_once:
  assumes vid: "getSpaceVidLen env (space_id req) = Some vidLen"
    and idx: "getEdgeIndexes env (space_id req) = Some indexes"
    and parts: "distinct (map fst (parts req))"
    and part: "(p, edges) \<in> set (parts req)"
    and later: "delivers (process env req (initState held)) s'"
  shows "length (partCodes p s') + length (partPending p s') = 1 \<and>
         finished s' = (if length (codes s') = length (parts req) then 1 else 0)"
proof -
  from part have nonempty: "parts req \<noteq> []" by auto
  from part have "p \<in> set (map fst (parts req))" by force
  with parts have "count_list (map fst (parts req)) p = 1" by (rule count_list_distinct)
  with process_accounted [OF vid idx nonempty later] show ?thesis
    unfolding accounted_def by simp
qed

text \<open>With nothing outstanding no callback comes, and the state stays as it is.\<close>

lemma delivers_nothing_pending:
  assumes "delivers s s'" and "pending s = []"
  shows "s' = s"
  using assms by (induction rule: delivers.induct) simp_all

text \<open>
  Claim C9 asks that the handler finishes exactly when as many outcomes are reported as
  the request has partitions. For a request without partitions that number is reached
  at once, but on both dispatch paths the handler returns with nothing reported,
  nothing outstanding and \<open>onFinished\<close> not called, so no callback can ever finish it;
  only the configuration-failure path, which calls \<open>onFinished\<close> itself, finishes.
\<close>

theorem empty_request_never_finishes:
  "process (demoEnv Normal (Some [])) \<lparr>space_id = 1, parts = []\<rparr> (initState []) =
     \<lparr>codes = [], callingNum = 0, finished = 0, edgesML = [], pending = []\<rparr> \<and>
   process (demoEnv Normal (Some demoIndexes)) \<lparr>space_id = 1, parts = []\<rparr> (initState []) =
     \<lparr>codes = [], callingNum = 0, finished = 0, edgesML = [], pending = []\<rparr> \<and>
   \<not> (\<exists>s'. delivers (process (demoEnv Normal (Some [])) \<lparr>space_id = 1, parts = []\<rparr> (initState [])) s'
          \<and> finished s' \<noteq> 0) \<and>
   \<not> (\<exists>s'. delivers (process (demoEnv Normal (Some demoIndexes)) \<lparr>space_id = 1, parts = []\<rparr> (initState [])) s'
          \<and> finished s' \<noteq> 0) \<and>
   process (demoEnv Normal None) \<lparr>space_id = 1, parts = []\<rparr> (initState []) =
     \<lparr>codes = [], callingNum = 0, finished = 1, edgesML = [], pending = []\<rparr>"
proof -
  have fast: "process (demoEnv Normal (Some [])) \<lparr>space_id = 1, parts = []\<rparr> (initState []) =
     \<lparr>codes = [], callingNum = 0, finished = 0, edgesML = [], pending = []\<rparr>"
    by (simp add: process_defs demo_defs)
  have indexed: "process (demoEnv Normal (Some demoIndexes)) \<lparr>space_id = 1, parts = []\<rparr> (initState []) =
     \<lparr>codes = [], callingNum = 0, finished = 0, edgesML = [], pending = []\<rparr>"
    by (simp add: process_defs demo_defs)
  have failed: "process (demoEnv Normal None) \<lparr>space_id = 1, parts = []\<rparr> (initState []) =
     \<lparr>codes = [], callingNum = 0, finished = 1, edgesML = [], pending = []\<rparr>"
    by (simp add: process_defs demo_defs)
  have never: "\<not> (\<exists>s'. delivers \<lparr>codes = [], callingNum = 0, finished = 0, edgesML = [], pending = []\<rparr> s'
          \<and> finished s' \<noteq> 0)"
    by (auto dest: delivers_nothing_pending)
  from fast indexed failed never show ?thesis by simp
qed

subsection \<open>A partition without keys\<close>

text \<open>
  When no scan finds a key, the builder succeeds with the encoding of the empty list
  of operations.
\<close>

lemma deleteEdges_nothing_scanned:
  assumes "\<forall>edge\<in>set edges. kv_prefix env spaceId partId
       (edgePrefix env vidLen partId (src edge) (edge_type edge) (ranking edge) (dst edge))
       = (SUCCEEDED, [])"
  shows "deleteEdges env spaceId vidLen indexes partId edges = Inr (encodeBatchValue env [])"
proof -
  from assms have "deleteEdgesLoop env spaceId vidLen indexes partId edges [] = Inr []"
    by (induction edges) (simp_all add: deleteEdge_def)
  then show ?thesis by (simp add: deleteEdges_def)
qed

end
